theory Spec2Isabelle
  imports Complex_Main
begin

section \<open>Floating-point cells and pandas columns\<close>

text \<open>
  A numeric cell of a pandas frame is an IEEE double. The model keeps the three special
  values apart from the finite ones, because the scripts branch on exactly them:
  \<open>NaN\<close> is the missing value (\<open>isna\<close>, \<open>dropna\<close>), and the two infinities are what
  \<open>replace([inf, -inf], nan)\<close> looks for. A finite value is represented by the rational
  it denotes; the sign of zero is not represented.
\<close>

datatype fl = Fin rat | PInf | NInf | NaN

definition isna :: "fl \<Rightarrow> bool" where
  "isna x = (x = NaN)"

definition isinf :: "fl \<Rightarrow> bool" where
  "isinf x = (x = PInf \<or> x = NInf)"

text \<open>Comparisons of doubles: every comparison with \<open>NaN\<close> is false.\<close>

fun fl_le :: "fl \<Rightarrow> fl \<Rightarrow> bool" where
  "fl_le NaN _ = False"
| "fl_le _ NaN = False"
| "fl_le NInf _ = True"
| "fl_le _ PInf = True"
| "fl_le PInf _ = False"
| "fl_le _ NInf = False"
| "fl_le (Fin a) (Fin b) = (a \<le> b)"

fun fl_lt :: "fl \<Rightarrow> fl \<Rightarrow> bool" where
  "fl_lt NaN _ = False"
| "fl_lt _ NaN = False"
| "fl_lt PInf _ = False"
| "fl_lt _ NInf = False"
| "fl_lt NInf _ = True"
| "fl_lt _ PInf = True"
| "fl_lt (Fin a) (Fin b) = (a < b)"

text \<open>
  \<open>Series.shift(L)\<close> for \<open>L \<ge> 0\<close>: the values move down by \<open>L\<close> positions, the first
  \<open>L\<close> positions are filled with \<open>NaN\<close>, the length is kept.
\<close>

definition shift :: "nat \<Rightarrow> fl list \<Rightarrow> fl list" where
  "shift L xs = replicate (min L (length xs)) NaN @ take (length xs - L) xs"

text \<open>
  \<open>groupby(level=0)[col].shift(L)\<close>: the rows are split into one group per key (all rows
  with that key, in frame order, whether adjacent or not), each group's column is shifted
  on its own, and the shifted values are written back at the positions their rows have in
  the frame. \<open>scatter\<close> is the writing back: walking the frame's keys, each row takes the
  next unused value of its own group.
\<close>

fun scatter :: "'k list \<Rightarrow> ('k \<Rightarrow> fl list) \<Rightarrow> fl list" where
  "scatter [] g = []"
| "scatter (k # ks) g =
     (case g k of [] \<Rightarrow> NaN # scatter ks g
      | v # vs \<Rightarrow> v # scatter ks (g(k := vs)))"

definition group_col :: "('r \<Rightarrow> 'k) \<Rightarrow> ('r \<Rightarrow> fl) \<Rightarrow> 'k \<Rightarrow> 'r list \<Rightarrow> fl list" where
  "group_col key col k rows = map col (filter (\<lambda>r. key r = k) rows)"

definition groupby_shift :: "('r \<Rightarrow> 'k) \<Rightarrow> ('r \<Rightarrow> fl) \<Rightarrow> nat \<Rightarrow> 'r list \<Rightarrow> fl list" where
  "groupby_shift key col L rows =
     scatter (map key rows) (\<lambda>k. shift L (group_col key col k rows))"

text \<open>The position of row \<open>j\<close> inside its own group: the number of earlier rows with its key.\<close>

definition rank :: "('r \<Rightarrow> 'k) \<Rightarrow> 'r list \<Rightarrow> nat \<Rightarrow> nat" where
  "rank key rows j = length (filter (\<lambda>r. key r = key (rows ! j)) (take j rows))"

section \<open>The firm-year table\<close>

text \<open>
  Every script reads the same file of firm-year observations. A row holds the columns
  the scripts select by name. The type of \<open>year\<close> is left open: models A and B coerce
  the column with \<open>to_numeric(errors="coerce")\<close>, so it is a double there (possibly
  \<open>NaN\<close>); the Hausman script and the controls summary drop rows without a year and
  convert to integers. Numeric columns are taken as already parsed. The firm identifier
  is taken as present; \<open>debt_ratio\<close> is the derived column of models A and B. A table is
  the list of its rows in the order the script has put them (sorted by firm, then year);
  nothing below depends on that order.
\<close>

record 'y obs =
  firm :: string
  year :: 'y
  sector :: "string option"
  esg_score :: fl
  environmental_score :: fl
  social_score :: fl
  governance_score :: fl
  employees :: fl
  assets :: fl
  debt :: fl
  roa :: fl
  niat :: fl
  debt_ratio :: fl

datatype outcome = ROA | NIAT

fun ycol :: "outcome \<Rightarrow> 'y obs \<Rightarrow> fl" where
  "ycol ROA r = roa r"
| "ycol NIAT r = niat r"

text \<open>
  A row for examples: firm \<open>f\<close>, year \<open>y\<close>, no sector, and the value \<open>v\<close> in every numeric
  column.
\<close>

definition obs_row :: "string \<Rightarrow> 'y \<Rightarrow> fl \<Rightarrow> 'y obs" where
  "obs_row f y v =
     \<lparr>firm = f, year = y, sector = None, esg_score = v, environmental_score = v,
      social_score = v, governance_score = v, employees = v, assets = v, debt = v,
      roa = v, niat = v, debt_ratio = v\<rparr>"

text \<open>
  A row of a frame after column selection, indexed by (entity, time): the selected
  columns in their order. \<open>dropna()\<close> keeps the rows without a missing cell.
\<close>

record 't frow =
  ent :: string
  tm :: 't
  cells :: "fl list"

definition dropna :: "'t frow list \<Rightarrow> 't frow list" where
  "dropna frame = filter (\<lambda>r. list_all (\<lambda>c. \<not> isna c) (cells r)) frame"

text \<open>\<open>value_counts()\<close> of a key, and \<open>nunique()\<close> of an index level.\<close>

definition value_count :: "'k \<Rightarrow> 'k list \<Rightarrow> nat" where
  "value_count k ks = length (filter (\<lambda>x. x = k) ks)"

definition nunique :: "'k list \<Rightarrow> nat" where
  "nunique ks = length (remdups ks)"

text \<open>An exception, by its class name; a sequence of calls stops at the first one raised.\<close>

datatype exn = Exn string

fun collect :: "('a \<Rightarrow> exn + 'b) \<Rightarrow> 'a list \<Rightarrow> exn + 'b list" where
  "collect f [] = Inr []"
| "collect f (x # xs) =
     (case f x of Inl e \<Rightarrow> Inl e
      | Inr y \<Rightarrow> (case collect f xs of Inl e \<Rightarrow> Inl e | Inr ys \<Rightarrow> Inr (y # ys)))"

section \<open>Models A and B (\<open>model_a_panel_fe.py\<close>, \<open>model_b_panel_fe.py\<close>)\<close>

text \<open>
  Division of doubles as pandas does it on two float columns: no exception, the IEEE
  special cases. The quotient of a finite value by a finite non-zero value is the exact
  quotient rounded to a double, which may overflow; the rounding is the parameter \<open>rnd\<close>.
\<close>

fun fl_div :: "(rat \<Rightarrow> fl) \<Rightarrow> fl \<Rightarrow> fl \<Rightarrow> fl" where
  "fl_div rnd NaN _ = NaN"
| "fl_div rnd _ NaN = NaN"
| "fl_div rnd (Fin a) (Fin b) =
     (if b = 0 then (if a = 0 then NaN else if 0 < a then PInf else NInf) else rnd (a / b))"
| "fl_div rnd (Fin a) _ = Fin 0"
| "fl_div rnd PInf (Fin b) = (if b < 0 then NInf else PInf)"
| "fl_div rnd NInf (Fin b) = (if b < 0 then PInf else NInf)"
| "fl_div rnd _ _ = NaN"

definition replace_inf :: "fl \<Rightarrow> fl" where
  "replace_inf x = (if isinf x then NaN else x)"

text \<open>
  \<open>build_debt_ratio\<close>: the new column is Debt / Assets, then
  \<open>df.replace([inf, -inf], nan, inplace=True)\<close> runs over the whole frame.
\<close>

definition replace_inf_row :: "fl obs \<Rightarrow> fl obs" where
  "replace_inf_row r =
     r\<lparr>year := replace_inf (year r),
       esg_score := replace_inf (esg_score r),
       environmental_score := replace_inf (environmental_score r),
       social_score := replace_inf (social_score r),
       governance_score := replace_inf (governance_score r),
       employees := replace_inf (employees r),
       assets := replace_inf (assets r),
       debt := replace_inf (debt r),
       roa := replace_inf (roa r),
       niat := replace_inf (niat r),
       debt_ratio := replace_inf (debt_ratio r)\<rparr>"

definition build_debt_ratio :: "(rat \<Rightarrow> fl) \<Rightarrow> fl obs list \<Rightarrow> fl obs list" where
  "build_debt_ratio rnd df =
     map (\<lambda>r. replace_inf_row (r\<lparr>debt_ratio := fl_div rnd (debt r) (assets r)\<rparr>)) df"

definition drop_singletons :: "'t frow list \<Rightarrow> 't frow list" where
  "drop_singletons frame =
     filter (\<lambda>r. 2 \<le> value_count (ent r) (map ent frame)) frame"

text \<open>
  The regressor columns that are lagged: \<open>ESG_Score\<close> in model A, the three pillar scores
  in model B. \<open>if lag: X[c] = X.groupby(level=0)[c].shift(lag)\<close>.
\<close>

definition model_a_scores :: "('y obs \<Rightarrow> fl) list" where
  "model_a_scores = [esg_score]"

definition model_b_scores :: "('y obs \<Rightarrow> fl) list" where
  "model_b_scores = [environmental_score, social_score, governance_score]"

definition lag_col :: "('y obs \<Rightarrow> fl) \<Rightarrow> nat \<Rightarrow> 'y obs list \<Rightarrow> fl list" where
  "lag_col c L block = (if L \<noteq> 0 then groupby_shift firm c L block else map c block)"

text \<open>
  \<open>pd.concat([y, X], axis=1)\<close>: the outcome, the (lagged) scores, Employees and
  Debt_ratio of every row of the block.
\<close>

definition concat_yx ::
  "('y obs \<Rightarrow> fl) list \<Rightarrow> 'y obs list \<Rightarrow> outcome \<Rightarrow> nat \<Rightarrow> 'y frow list" where
  "concat_yx cols block oc L =
     map (\<lambda>j. \<lparr>ent = firm (block ! j), tm = year (block ! j),
               cells = ycol oc (block ! j) # map (\<lambda>c. lag_col c L block ! j) cols
                       @ [employees (block ! j), debt_ratio (block ! j)]\<rparr>)
         [0..<length block]"

definition panel_design ::
  "('y obs \<Rightarrow> fl) list \<Rightarrow> 'y obs list \<Rightarrow> outcome \<Rightarrow> nat \<Rightarrow> 'y frow list" where
  "panel_design cols block oc L = drop_singletons (dropna (concat_yx cols block oc L))"

text \<open>
  The estimator (\<open>PanelOLS(...).fit(...)\<close> of linearmodels) is outside the repository: it
  is a parameter that either raises or returns a fit, whose coefficients and p-values
  are listed in the order of the regressor columns.
\<close>

record fit =
  nobs :: nat
  rsquared_within :: fl
  params :: "fl list"
  pvalues :: "fl list"

record result_row =
  subset_label :: string
  res_outcome :: outcome
  res_lag :: nat
  n_obs :: nat
  r2_within :: fl
  coef_p :: "(fl \<times> fl) list"
  status :: string

definition get_nan :: "fl list \<Rightarrow> nat \<Rightarrow> fl" where
  "get_nan xs i = (if i < length xs then xs ! i else NaN)"

definition fit_one ::
  "('y obs \<Rightarrow> fl) list \<Rightarrow> ('y frow list \<Rightarrow> exn + fit) \<Rightarrow> 'y obs list \<Rightarrow> outcome \<Rightarrow> nat
     \<Rightarrow> string \<Rightarrow> exn + result_row" where
  "fit_one cols est block oc L label =
     (let data = panel_design cols block oc L in
      if data = [] \<or> list_ex (\<lambda>r. value_count (ent r) (map ent data) < 2) data
      then Inr \<lparr>subset_label = label, res_outcome = oc, res_lag = L, n_obs = 0,
                r2_within = NaN, coef_p = map (\<lambda>_. (NaN, NaN)) cols,
                status = ''no_estimable_panel''\<rparr>
      else (case est data of
              Inl e \<Rightarrow> Inl e
            | Inr res \<Rightarrow>
                Inr \<lparr>subset_label = label, res_outcome = oc, res_lag = L, n_obs = nobs res,
                     r2_within = rsquared_within res,
                     coef_p = map (\<lambda>i. (get_nan (params res) i, get_nan (pvalues res) i))
                                  [0..<length cols],
                     status = ''ok''\<rparr>))"

definition OUTCOMES :: "outcome list" where
  "OUTCOMES = [ROA, NIAT]"

definition LAGS :: "nat list" where
  "LAGS = [0, 1, 2, 3]"

definition covid :: "fl obs list \<Rightarrow> fl obs list" where
  "covid df = filter (\<lambda>r. fl_le (Fin 2020) (year r) \<and> fl_le (year r) (Fin 2021)) df"

definition non_covid :: "fl obs list \<Rightarrow> fl obs list" where
  "non_covid df = filter (\<lambda>r. fl_lt (year r) (Fin 2020) \<or> fl_le (Fin 2022) (year r)) df"

definition fits_of ::
  "string \<Rightarrow> fl obs list \<Rightarrow> (string \<times> fl obs list \<times> outcome \<times> nat) list" where
  "fits_of label sub = concat (map (\<lambda>oc. map (\<lambda>L. (label, sub, oc, L)) LAGS) OUTCOMES)"

text \<open>
  The batch of model A, in the order the script runs it: the full sample; then, for each
  of COVID and Non-COVID, that subset followed by the hotels (the hotels block and the
  writing of the file sit inside that loop's body). \<open>hotel\<close> is the mask
  \<open>str.contains("hotel", case=False, na=False)\<close> on the sector, taken as defined on every
  table (model A applies \<open>.str\<close> without \<open>astype(str)\<close>, which raises when the column
  holds no string; that further way of ending the run is not modelled). An exception
  raised by a fit is not caught anywhere, so it ends the run.
\<close>

definition combos_a ::
  "(string option \<Rightarrow> bool) \<Rightarrow> fl obs list \<Rightarrow> (string \<times> fl obs list \<times> outcome \<times> nat) list" where
  "combos_a hotel df =
     fits_of ''Full Period'' df
     @ concat (map (\<lambda>(label, sub).
                 fits_of label sub @ fits_of ''Hotels Only'' (filter (\<lambda>r. hotel (sector r)) df))
               [(''COVID'', covid df), (''Non-COVID'', non_covid df)])"

definition main_a ::
  "(fl frow list \<Rightarrow> exn + fit) \<Rightarrow> (string option \<Rightarrow> bool) \<Rightarrow> fl obs list
     \<Rightarrow> exn + result_row list" where
  "main_a est hotel df =
     collect (\<lambda>(label, sub, oc, L). fit_one model_a_scores est sub oc L label)
       (combos_a hotel df)"

text \<open>The batch of model B: one loop over the four subsets.\<close>

definition combos_b ::
  "(string option \<Rightarrow> bool) \<Rightarrow> fl obs list \<Rightarrow> (string \<times> fl obs list \<times> outcome \<times> nat) list" where
  "combos_b hotel df =
     concat (map (\<lambda>(label, sub). fits_of label sub)
               [(''Full Period'', df), (''COVID'', covid df), (''Non-COVID'', non_covid df),
                (''Hotels Only'', filter (\<lambda>r. hotel (sector r)) df)])"

definition main_b ::
  "(fl frow list \<Rightarrow> exn + fit) \<Rightarrow> (string option \<Rightarrow> bool) \<Rightarrow> fl obs list
     \<Rightarrow> exn + result_row list" where
  "main_b est hotel df =
     collect (\<lambda>(label, sub, oc, L). fit_one model_b_scores est sub oc L label)
       (combos_b hotel df)"

section \<open>The Hausman appendix (\<open>hausman_appendix_A1.py\<close>)\<close>

text \<open>
  The script keeps the firms with at least three rows of the table, before any lag is
  built and before any row with a missing value is dropped.
\<close>

definition keep_min3 :: "int obs list \<Rightarrow> int obs list" where
  "keep_min3 df = filter (\<lambda>r. 3 \<le> value_count (firm r) (map firm df)) df"

text \<open>
  A column counts as constant when \<open>np.isclose(std(ddof=0), 0.0)\<close>, that is when the
  population standard deviation is at most \<open>1e-8\<close>, that is when the population variance
  is at most \<open>1e-16\<close>. The standard deviation of an empty column or of one holding an
  infinity is \<open>NaN\<close>, which is close to nothing. The arithmetic of the variance is taken
  exactly, where the script compares a rounded standard deviation with the double
  \<open>1e-08\<close>: a column whose exact deviation is within rounding of that bound may be judged
  differently.
\<close>

fun fin_vals :: "fl list \<Rightarrow> rat list option" where
  "fin_vals [] = Some []"
| "fin_vals (Fin a # xs) = (case fin_vals xs of None \<Rightarrow> None | Some ys \<Rightarrow> Some (a # ys))"
| "fin_vals (_ # xs) = None"

definition pvar :: "rat list \<Rightarrow> rat" where
  "pvar xs =
     (let n = of_nat (length xs); m = sum_list xs / n
      in sum_list (map (\<lambda>x. (x - m) * (x - m)) xs) / n)"

definition const_col :: "fl list \<Rightarrow> bool" where
  "const_col vs =
     (case fin_vals vs of None \<Rightarrow> False
      | Some xs \<Rightarrow> xs \<noteq> [] \<and> pvar xs \<le> 1 / 10 ^ 16)"

record design =
  d_index :: "(string \<times> int) list"
  d_y :: "fl list"
  d_X :: "(string \<times> fl list) list"

text \<open>
  \<open>build_design\<close>: the lagged score (shifted for every lag, 0 included), the rows where the
  outcome and the three regressors are all present, and the regressor columns that are
  not constant on those rows. Singleton entities are not removed here.
\<close>

definition build_design :: "int obs list \<Rightarrow> (int obs \<Rightarrow> fl) \<Rightarrow> nat \<Rightarrow> design" where
  "build_design df_idx y_col L =
     (let df = zip df_idx (groupby_shift firm esg_score L df_idx);
          kept = filter (\<lambda>(r, e). \<not> (isna (y_col r)
                    \<or> (isna e \<or> isna (employees r) \<or> isna (debt r)))) df;
          X = [(''ESG_lag'', map snd kept),
               (''Employees'', map (\<lambda>(r, e). employees r) kept),
               (''Debt'', map (\<lambda>(r, e). debt r) kept)]
      in \<lparr>d_index = map (\<lambda>(r, e). (firm r, year r)) kept,
          d_y = map (\<lambda>(r, e). y_col r) kept,
          d_X = filter (\<lambda>(c, vs). \<not> const_col vs) X\<rparr>)"

text \<open>
  A fit of linearmodels, as far as the comparison reads it: the coefficients and their
  covariance, by regressor name. The numbers of the comparison are taken as reals
  (floating-point arithmetic is taken exactly). The numerical routines are parameters:
  \<open>np.linalg.inv\<close> (raising \<open>LinAlgError\<close> is \<open>None\<close>), \<open>np.linalg.pinv\<close>, \<open>chi2.cdf\<close>,
  and the two roundings of the report (\<open>round(x, 4)\<close> and the format \<open>.6g\<close>).
\<close>

record hfit =
  h_params :: "string \<Rightarrow> real option"
  h_cov :: "string \<Rightarrow> string \<Rightarrow> real option"

record numlib =
  linalg_inv :: "real list list \<Rightarrow> real list list option"
  linalg_pinv :: "real list list \<Rightarrow> real list list"
  chi2_cdf :: "real \<Rightarrow> nat \<Rightarrow> real"
  round4 :: "real \<Rightarrow> real"
  fmt6g :: "real \<Rightarrow> real"

fun those_all :: "'a option list \<Rightarrow> 'a list option" where
  "those_all [] = Some []"
| "those_all (None # xs) = None"
| "those_all (Some x # xs) = (case those_all xs of None \<Rightarrow> None | Some ys \<Rightarrow> Some (x # ys))"

text \<open>\<open>res.params[keep_idx]\<close> and \<open>res.cov.loc[keep_idx, keep_idx]\<close>: a missing name raises.\<close>

definition params_at :: "hfit \<Rightarrow> string list \<Rightarrow> real list option" where
  "params_at res keep_idx = those_all (map (h_params res) keep_idx)"

definition cov_loc :: "hfit \<Rightarrow> string list \<Rightarrow> real list list option" where
  "cov_loc res keep_idx =
     those_all (map (\<lambda>a. those_all (map (\<lambda>b. h_cov res a b) keep_idx)) keep_idx)"

definition dot :: "real list \<Rightarrow> real list \<Rightarrow> real" where
  "dot xs ys = sum_list (map2 (*) xs ys)"

text \<open>\<open>d.T @ Vinv\<close> for a vector \<open>d\<close>: entry \<open>j\<close> is the product of \<open>d\<close> with column \<open>j\<close>.\<close>

definition vecmat :: "real list \<Rightarrow> real list list \<Rightarrow> real list" where
  "vecmat d M = map (\<lambda>j. dot d (map (\<lambda>row. row ! j) M)) [0..<length d]"

definition hausman_stat ::
  "numlib \<Rightarrow> hfit \<Rightarrow> hfit \<Rightarrow> string list \<Rightarrow> exn + (real \<times> nat \<times> real)" where
  "hausman_stat lib fe_res re_res keep_idx =
     (case (params_at fe_res keep_idx, params_at re_res keep_idx,
            cov_loc fe_res keep_idx, cov_loc re_res keep_idx) of
        (Some b_fe, Some b_re, Some V_fe, Some V_re) \<Rightarrow>
          (let d = map2 (-) b_fe b_re;
               V = map2 (map2 (-)) V_fe V_re;
               Vinv = (case linalg_inv lib V of Some W \<Rightarrow> W | None \<Rightarrow> linalg_pinv lib V);
               stat = dot (vecmat d Vinv) d;
               df = length keep_idx;
               pval = 1 - chi2_cdf lib stat df
           in Inr (stat, df, pval))
      | _ \<Rightarrow> Inl (Exn ''KeyError''))"

text \<open>A row of the appendix; \<open>None\<close> is the \<open>NaN\<close> the script writes when nothing is computed.\<close>

record hrow =
  h_sample :: string
  h_outcome :: outcome
  h_lag :: nat
  chi2 :: "real option"
  h_df :: nat
  h_p :: "real option"
  decision :: string

definition hausman_row ::
  "numlib \<Rightarrow> (design \<Rightarrow> exn + hfit) \<Rightarrow> (design \<Rightarrow> exn + hfit) \<Rightarrow> int obs list \<Rightarrow> string
     \<Rightarrow> outcome \<times> nat \<Rightarrow> exn + hrow" where
  "hausman_row lib fe_est re_est panel sample_label ol =
     (case ol of (out_name, L) \<Rightarrow>
       (let D = build_design panel (ycol out_name) L in
        if length (d_y D) = 0 \<or> length (d_X D) = 0
        then Inr \<lparr>h_sample = sample_label, h_outcome = out_name, h_lag = L,
                  chi2 = None, h_df = 0, h_p = None, decision = ''NA''\<rparr>
        else (case fe_est D of
                Inl e \<Rightarrow> Inl e
              | Inr fe_res \<Rightarrow>
                  (case re_est D of
                     Inl e \<Rightarrow> Inl e
                   | Inr re_res \<Rightarrow>
                       (case hausman_stat lib fe_res re_res (map fst (d_X D)) of
                          Inl e \<Rightarrow> Inl e
                        | Inr (chi2v, df, p) \<Rightarrow>
                            Inr \<lparr>h_sample = sample_label, h_outcome = out_name, h_lag = L,
                                 chi2 = Some (round4 lib chi2v), h_df = df,
                                 h_p = Some (fmt6g lib p),
                                 decision = (if p < 5 / 100 then ''FE'' else ''RE'')\<rparr>)))))"

definition hausman_run_block ::
  "numlib \<Rightarrow> (design \<Rightarrow> exn + hfit) \<Rightarrow> (design \<Rightarrow> exn + hfit) \<Rightarrow> int obs list \<Rightarrow> string
     \<Rightarrow> exn + hrow list" where
  "hausman_run_block lib fe_est re_est panel sample_label =
     collect (hausman_row lib fe_est re_est panel sample_label)
       (concat (map (\<lambda>oc. map (\<lambda>L. (oc, L)) [0, 1, 2, 3]) [ROA, NIAT]))"

text \<open>
  The comparison in the words of the specification: the quadratic form \<open>d\<^sup>T W d\<close>,
  written as a double sum over the shared regressors.
\<close>

definition quad_form :: "real list \<Rightarrow> real list list \<Rightarrow> real" where
  "quad_form d W = (\<Sum>i<length d. \<Sum>j<length d. d ! i * (W ! i ! j) * d ! j)"

text \<open>
  Two fits share the regressors \<open>keep_idx\<close> when both have a coefficient for every name
  and a covariance for every pair of names. For such fits, the difference vector
  \<open>d = \<beta>\<^sub>F\<^sub>E - \<beta>\<^sub>R\<^sub>E\<close> and the difference of the covariances \<open>V = Cov\<^sub>F\<^sub>E - Cov\<^sub>R\<^sub>E\<close>,
  entry by entry in the order of \<open>keep_idx\<close>.
\<close>

definition shared :: "hfit \<Rightarrow> hfit \<Rightarrow> string list \<Rightarrow> bool" where
  "shared fe_res re_res keep_idx =
     list_all (\<lambda>a. h_params fe_res a \<noteq> None \<and> h_params re_res a \<noteq> None
                \<and> list_all (\<lambda>b. h_cov fe_res a b \<noteq> None \<and> h_cov re_res a b \<noteq> None) keep_idx)
       keep_idx"

definition diff_vec :: "hfit \<Rightarrow> hfit \<Rightarrow> string list \<Rightarrow> real list" where
  "diff_vec fe_res re_res keep_idx =
     map (\<lambda>a. the (h_params fe_res a) - the (h_params re_res a)) keep_idx"

definition diff_cov :: "hfit \<Rightarrow> hfit \<Rightarrow> string list \<Rightarrow> real list list" where
  "diff_cov fe_res re_res keep_idx =
     map (\<lambda>a. map (\<lambda>b. the (h_cov fe_res a b) - the (h_cov re_res a b)) keep_idx) keep_idx"

text \<open>The matrix the statistic is computed with: the inverse, or the pseudo-inverse when
  the inversion raises.\<close>

definition used_inverse :: "numlib \<Rightarrow> real list list \<Rightarrow> real list list" where
  "used_inverse lib V = (case linalg_inv lib V of Some W \<Rightarrow> W | None \<Rightarrow> linalg_pinv lib V)"

section \<open>The controls summary (\<open>controls_summary.py\<close>)\<close>

definition valid_panel :: "int frow list \<Rightarrow> bool" where
  "valid_panel df_idxed =
     (2 \<le> nunique (map ent df_idxed) \<and> 2 \<le> nunique (map tm df_idxed) \<and> 10 < length df_idxed)"

text \<open>
  The frame of one lag: both outcomes, the lagged score, Employees and Debt, without the
  rows that miss any of the five.
\<close>

definition lag_frame :: "int obs list \<Rightarrow> nat \<Rightarrow> int frow list" where
  "lag_frame df_idxed L =
     dropna (map (\<lambda>(r, e). \<lparr>ent = firm r, tm = year r,
                            cells = [roa r, niat r, e, employees r, debt r]\<rparr>)
               (zip df_idxed (groupby_shift firm esg_score L df_idxed)))"

record cs_fit =
  cs_params :: "string \<Rightarrow> fl option"
  cs_pvalues :: "string \<Rightarrow> fl option"

record cs_row =
  panel :: string
  cs_outcome :: outcome
  cs_lag :: nat
  entities :: nat
  obs_used :: nat
  clustered_SEs :: string
  coef_Employees :: fl
  p_Employees :: fl
  coef_Debt :: fl
  p_Debt :: fl
  cs_note :: string

definition get_or_nan :: "(string \<Rightarrow> fl option) \<Rightarrow> string \<Rightarrow> fl" where
  "get_or_nan m k = (case m k of None \<Rightarrow> NaN | Some v \<Rightarrow> v)"

text \<open>
  \<open>try_fit\<close>: everything the estimator raises is caught by \<open>except Exception\<close> and
  becomes the note of the row.
\<close>

definition try_fit ::
  "(int frow list \<Rightarrow> outcome \<Rightarrow> exn + cs_fit) \<Rightarrow> int frow list \<Rightarrow> outcome \<Rightarrow> nat \<Rightarrow> string
     \<Rightarrow> cs_row" where
  "try_fit est df_idxed y L label =
     (let row = \<lparr>panel = label, cs_outcome = y, cs_lag = L,
                 entities = nunique (map ent df_idxed), obs_used = length df_idxed,
                 clustered_SEs = ''entity+year'',
                 coef_Employees = NaN, p_Employees = NaN, coef_Debt = NaN, p_Debt = NaN,
                 cs_note = []\<rparr>
      in case est df_idxed y of
           Inr res \<Rightarrow>
             row\<lparr>coef_Employees := get_or_nan (cs_params res) ''Employees'',
                 p_Employees := get_or_nan (cs_pvalues res) ''Employees'',
                 coef_Debt := get_or_nan (cs_params res) ''Debt'',
                 p_Debt := get_or_nan (cs_pvalues res) ''Debt''\<rparr>
         | Inl (Exn name) \<Rightarrow> row\<lparr>cs_note := ''skipped: '' @ name\<rparr>)"

definition skipped_row :: "int frow list \<Rightarrow> outcome \<Rightarrow> nat \<Rightarrow> string \<Rightarrow> cs_row" where
  "skipped_row df_lag y L label =
     \<lparr>panel = label, cs_outcome = y, cs_lag = L,
      entities = (if length df_lag \<noteq> 0 then nunique (map ent df_lag) else 0),
      obs_used = length df_lag, clustered_SEs = ''entity+year'',
      coef_Employees = NaN, p_Employees = NaN, coef_Debt = NaN, p_Debt = NaN,
      cs_note = ''skipped: insufficient panel''\<rparr>"

definition Y_LIST :: "outcome list" where
  "Y_LIST = [ROA, NIAT]"

definition run_block ::
  "(int frow list \<Rightarrow> outcome \<Rightarrow> exn + cs_fit) \<Rightarrow> int obs list \<Rightarrow> string \<Rightarrow> cs_row list" where
  "run_block est df_idxed label =
     concat (map (\<lambda>L.
        (let df_lag = lag_frame df_idxed L in
         if \<not> valid_panel df_lag
         then map (\<lambda>y. skipped_row df_lag y L label) Y_LIST
         else map (\<lambda>y. try_fit est df_lag y L label) Y_LIST)) [0, 1, 2])"

text \<open>The two time windows of \<open>main\<close>: \<open>between\<close> is inclusive at both ends.\<close>

definition between :: "int \<Rightarrow> int \<Rightarrow> int \<Rightarrow> bool" where
  "between lo hi x = (lo \<le> x \<and> x \<le> hi)"

definition cs_covid :: "int obs list \<Rightarrow> int obs list" where
  "cs_covid idx = filter (\<lambda>r. between 2020 2021 (year r)) idx"

definition cs_noncovid :: "int obs list \<Rightarrow> int obs list" where
  "cs_noncovid idx =
     filter (\<lambda>r. between 2008 2019 (year r) \<or> between 2022 2024 (year r)) idx"

section \<open>Residual diagnostics (\<open>model_diagnostics.py\<close>)\<close>












section \<open>Example inputs\<close>

text \<open>
  A Hausman panel of two firms, A with three years and B with four; every numeric column
  of a row holds the same value.
\<close>

definition hpanel :: "int obs list" where
  "hpanel =
     [obs_row ''A'' 2018 (Fin 10), obs_row ''A'' 2019 (Fin 20), obs_row ''A'' 2020 (Fin 30),
      obs_row ''B'' 2018 (Fin 40), obs_row ''B'' 2019 (Fin 50), obs_row ''B'' 2020 (Fin 60),
      obs_row ''B'' 2021 (Fin 70)]"

text \<open>A table for models A and B in which firm B has Assets = 0 in its only year.\<close>

definition raw_example :: "fl obs list" where
  "raw_example =
     [obs_row ''A'' (Fin 2019) (Fin 2), obs_row ''A'' (Fin 2020) (Fin 4),
      (obs_row ''B'' (Fin 2019) (Fin 3))\<lparr>assets := Fin 0\<rparr>]"

text \<open>A controls-summary panel: firms A and B, each with the six years 2015 to 2020.\<close>

definition cs_panel :: "int obs list" where
  "cs_panel =
     concat (map (\<lambda>f. map (\<lambda>y. obs_row f y (Fin (of_int y)))
                        [2015, 2016, 2017, 2018, 2019, 2020]) [''A'', ''B''])"

text \<open>
  For the Hausman comparison with a single shared regressor: the inverse and the
  pseudo-inverse of a 1 x 1 matrix, a stand-in for the distribution function (0 up to 0,
  then increasing towards 1; no property of the chi-square distribution is used), no
  rounding, and a fit with the one coefficient \<open>b\<close> of variance \<open>v\<close>.
\<close>

definition inv_1x1 :: "real list list \<Rightarrow> real list list option" where
  "inv_1x1 M = (case M of [[v]] \<Rightarrow> (if v = 0 then None else Some [[1 / v]]) | _ \<Rightarrow> None)"

definition pinv_1x1 :: "real list list \<Rightarrow> real list list" where
  "pinv_1x1 M = (case M of [[v]] \<Rightarrow> [[if v = 0 then 0 else 1 / v]] | _ \<Rightarrow> M)"

definition lib_example :: numlib where
  "lib_example =
     \<lparr>linalg_inv = inv_1x1, linalg_pinv = pinv_1x1,
      chi2_cdf = (\<lambda>x k. if x \<le> 0 then 0 else x / (1 + x)),
      round4 = (\<lambda>x. x), fmt6g = (\<lambda>x. x)\<rparr>"

definition fit_example :: "real \<Rightarrow> real \<Rightarrow> hfit" where
  "fit_example b v =
     \<lparr>h_params = (\<lambda>a. if a = ''ESG_lag'' then Some b else None),
      h_cov = (\<lambda>a c. if a = ''ESG_lag'' \<and> c = ''ESG_lag'' then Some v else None)\<rparr>"

text \<open>The Hausman panel with constant Employees and Debt: only the score column remains.\<close>

definition hpanel_one :: "int obs list" where
  "hpanel_one = map (\<lambda>r. r\<lparr>employees := Fin 1, debt := Fin 1\<rparr>) hpanel"





section \<open>The lag builder\<close>

lemma shift_nth: "i < length xs \<Longrightarrow> shift L xs ! i = (if i < L then NaN else xs ! (i - L))"
  by (auto simp: shift_def nth_append)

lemma length_shift: "length (shift L xs) = length xs"
  by (simp add: shift_def)

lemma scatter_length: "length (scatter ks g) = length ks"
  by (induction ks arbitrary: g) (auto split: list.splits)

lemma scatter_nth:
  "j < length ks \<Longrightarrow> (\<forall>k. value_count k ks \<le> length (g k)) \<Longrightarrow>
   scatter ks g ! j = g (ks ! j) ! value_count (ks ! j) (take j ks)"
proof (induction ks arbitrary: g j)
  case Nil
  then show ?case by simp
next
  case (Cons k ks)
  from Cons.prems(2)[rule_format, of k] obtain v vs where gk: "g k = v # vs"
    by (cases "g k") (auto simp: value_count_def)
  show ?case
  proof (cases j)
    case 0
    then show ?thesis using gk by (simp add: value_count_def)
  next
    case (Suc j')
    let ?g = "g(k := vs)"
    have len: "\<forall>k'. value_count k' ks \<le> length (?g k')"
    proof
      fix k'
      show "value_count k' ks \<le> length (?g k')"
        using Cons.prems(2)[rule_format, of k'] gk
        by (auto simp: value_count_def split: if_splits)
    qed
    have j': "j' < length ks" using Cons.prems(1) Suc by simp
    have "scatter (k # ks) g ! j = scatter ks ?g ! j'" using gk Suc by simp
    also have "\<dots> = ?g (ks ! j') ! value_count (ks ! j') (take j' ks)"
      by (rule Cons.IH[OF j' len])
    finally show ?thesis using Suc gk by (auto simp: value_count_def)
  qed
qed

lemma rank_value_count: "j < length rows \<Longrightarrow>
  rank key rows j = value_count (map key rows ! j) (take j (map key rows))"
  by (simp add: rank_def value_count_def take_map filter_map comp_def)

lemma length_group_col: "length (group_col key col k rows) = value_count k (map key rows)"
  by (simp add: group_col_def value_count_def filter_map comp_def)

lemma length_groupby_shift: "length (groupby_shift key col L rows) = length rows"
  by (simp add: groupby_shift_def scatter_length)

lemma groupby_shift_nth_group:
  assumes "j < length rows"
  shows "groupby_shift key col L rows ! j
         = shift L (group_col key col (key (rows ! j)) rows) ! rank key rows j"
proof -
  have "\<forall>k. value_count k (map key rows) \<le> length (shift L (group_col key col k rows))"
    by (simp add: length_shift length_group_col)
  then show ?thesis
    using assms scatter_nth[of j "map key rows" "\<lambda>k. shift L (group_col key col k rows)"]
    by (simp add: groupby_shift_def rank_value_count)
qed

lemma filter_split_at:
  assumes "j < length xs"
  shows "filter P xs = filter P (take j xs) @ (if P (xs ! j) then [xs ! j] else []) @ filter P (drop (Suc j) xs)"
proof -
  have "xs = take j xs @ xs ! j # drop (Suc j) xs"
    using assms by (rule id_take_nth_drop)
  then have "filter P xs = filter P (take j xs @ xs ! j # drop (Suc j) xs)" by simp
  then show ?thesis by simp
qed

lemma rank_less: "j < length rows \<Longrightarrow> rank key rows j < length (group_col key col (key (rows ! j)) rows)"
  using filter_split_at[of j rows "\<lambda>r. key r = key (rows ! j)"]
  by (simp add: rank_def group_col_def)

lemma group_col_rank: "j < length rows \<Longrightarrow>
   group_col key col (key (rows ! j)) rows ! rank key rows j = col (rows ! j)"
  using filter_split_at[of j rows "\<lambda>r. key r = key (rows ! j)"]
  by (simp add: rank_def group_col_def nth_append)

lemma groupby_shift_nth:
  assumes "j < length rows"
  shows "groupby_shift key col L rows ! j
         = (if rank key rows j < L then NaN
            else group_col key col (key (rows ! j)) rows ! (rank key rows j - L))"
  using assms rank_less[OF assms, of key col]
  by (simp add: groupby_shift_nth_group shift_nth)

lemma groupby_shift_zero: "groupby_shift key col 0 rows = map col rows"
  by (rule nth_equalityI) (simp_all add: length_groupby_shift groupby_shift_nth group_col_rank)

text \<open>
  Claim C3. For a column and a lag \<open>L \<ge> 0\<close>, the lagged column has one value per row; at
  row \<open>j\<close>, which is the row number \<open>rank key rows j\<close> of its entity's group, it holds
  \<open>NaN\<close> when that number is below \<open>L\<close> and otherwise the source value \<open>L\<close> rows earlier in
  the same group, whatever the years of the rows are; with \<open>L = 0\<close> the column is
  unchanged (also in models A and B, which skip the shift for lag 0). An entity with the
  years 2018 to 2021 and the values 10, 20, 30, 40 gets NaN, 10, 20, 30 at lag 1 and
  NaN, NaN, 10, 20 at lag 2.
\<close>

theorem lag_builder_by_row_position:
  "(\<forall>j<length rows.
      group_col key col (key (rows ! j)) rows ! rank key rows j = col (rows ! j)
      \<and> groupby_shift key col L rows ! j
          = (if rank key rows j < L then NaN
             else group_col key col (key (rows ! j)) rows ! (rank key rows j - L)))
   \<and> length (groupby_shift key col L rows) = length rows
   \<and> groupby_shift key col 0 rows = map col rows
   \<and> lag_col c 0 block = map c block
   \<and> lag_col c (Suc L) block = groupby_shift firm c (Suc L) block
   \<and> groupby_shift fst (\<lambda>r. snd (snd r)) 1
         [(''F'', 2018::int, Fin 10), (''F'', 2019, Fin 20), (''F'', 2020, Fin 30),
          (''F'', 2021, Fin 40)]
       = [NaN, Fin 10, Fin 20, Fin 30]
   \<and> groupby_shift fst (\<lambda>r. snd (snd r)) 2
         [(''F'', 2018::int, Fin 10), (''F'', 2019, Fin 20), (''F'', 2020, Fin 30),
          (''F'', 2021, Fin 40)]
       = [NaN, NaN, Fin 10, Fin 20]"
proof -
  have ex1: "groupby_shift fst (\<lambda>r. snd (snd r)) 1
         [(''F'', 2018::int, Fin 10), (''F'', 2019, Fin 20), (''F'', 2020, Fin 30),
          (''F'', 2021, Fin 40)]
       = [NaN, Fin 10, Fin 20, Fin 30]"
    by (simp add: groupby_shift_def group_col_def shift_def)
  have ex2: "groupby_shift fst (\<lambda>r. snd (snd r)) 2
         [(''F'', 2018::int, Fin 10), (''F'', 2019, Fin 20), (''F'', 2020, Fin 30),
          (''F'', 2021, Fin 40)]
       = [NaN, NaN, Fin 10, Fin 20]"
    by (simp add: groupby_shift_def group_col_def shift_def eval_nat_numeral)
  have lag0: "lag_col c 0 block = map c block"
    by (simp add: lag_col_def)
  have lagS: "lag_col c (Suc L) block = groupby_shift firm c (Suc L) block"
    by (simp add: lag_col_def)
  show ?thesis
    using ex1 ex2 lag0 lagS
    by (simp add: groupby_shift_nth group_col_rank length_groupby_shift groupby_shift_zero)
qed

text \<open>
  Two firms with interleaved rows and a gap in the years of firm A (2018, 2021): the
  lag-1 value of A's second row is A's 2018 value.
\<close>

theorem lag_builder_by_row_position_witness:
  "(2::nat) < length [(''A'', 2018::int, Fin 1), (''B'', 2018, Fin 5), (''A'', 2021, Fin 2)]
   \<and> groupby_shift fst (\<lambda>r. snd (snd r)) 1
        [(''A'', 2018::int, Fin 1), (''B'', 2018, Fin 5), (''A'', 2021, Fin 2)] ! 2 = Fin 1
   \<and> rank fst [(''A'', 2018::int, Fin 1), (''B'', 2018, Fin 5), (''A'', 2021, Fin 2)] 2 = 1"
proof -
  let ?rows = "[(''A'', 2018::int, Fin 1), (''B'', 2018, Fin 5), (''A'', 2021, Fin 2)]"
  have h: "(2::nat) < length ?rows" by simp
  have "\<forall>j<length ?rows.
      group_col fst (\<lambda>r. snd (snd r)) (fst (?rows ! j)) ?rows ! rank fst ?rows j
        = snd (snd (?rows ! j))
      \<and> groupby_shift fst (\<lambda>r. snd (snd r)) 1 ?rows ! j
          = (if rank fst ?rows j < 1 then NaN
             else group_col fst (\<lambda>r. snd (snd r)) (fst (?rows ! j)) ?rows
                  ! (rank fst ?rows j - 1))"
    using lag_builder_by_row_position [of ?rows fst "\<lambda>r. snd (snd r)" 1] by blast
  with h have "groupby_shift fst (\<lambda>r. snd (snd r)) 1 ?rows ! 2
          = (if rank fst ?rows 2 < 1 then NaN
             else group_col fst (\<lambda>r. snd (snd r)) (fst (?rows ! 2)) ?rows
                  ! (rank fst ?rows 2 - 1))"
    by blast
  then show ?thesis by (simp add: rank_def group_col_def)
qed

section \<open>The COVID window and its complement\<close>

lemma length_filter_partition:
  "(\<forall>x\<in>set xs. P x \<noteq> Q x) \<Longrightarrow> length (filter P xs) + length (filter Q xs) = length xs"
  by (induction xs) auto

lemma length_filter_split:
  "(\<forall>x\<in>set xs. \<not> (P x \<and> Q x)) \<Longrightarrow>
   length (filter P xs) + length (filter Q xs) = length (filter (\<lambda>x. P x \<or> Q x) xs)"
  by (induction xs) auto

lemma whole_year_window:
  "fl_le (Fin 2020) (Fin (of_int n)) \<and> fl_le (Fin (of_int n)) (Fin 2021)
   \<longleftrightarrow> \<not> (fl_lt (Fin (of_int n)) (Fin 2020) \<or> fl_le (Fin 2022) (Fin (of_int n)))"
proof -
  have a: "((2020::rat) \<le> of_int n) = (2020 \<le> n)"
    using of_int_le_iff[of 2020 n, where 'a=rat] by simp
  have b: "((of_int n::rat) \<le> 2021) = (n \<le> 2021)"
    using of_int_le_iff[of n 2021, where 'a=rat] by simp
  have c: "((of_int n::rat) < 2020) = (n < 2020)"
    using of_int_less_iff[of n 2020, where 'a=rat] by simp
  have d: "((2022::rat) \<le> of_int n) = (2022 \<le> n)"
    using of_int_le_iff[of 2022 n, where 'a=rat] by simp
  show ?thesis unfolding fl_le.simps fl_lt.simps a b c d by arith
qed

text \<open>
  Claim C2, as stated, fails. In the controls summary the non-COVID subset is restricted
  to the years 2008 to 2019 and 2022 to 2024, so a row of 2007 is in neither subset and the
  two counts do not sum to the panel's; in models A and B a row whose year is missing is
  in neither subset, every comparison with \<open>NaN\<close> being false.
\<close>

theorem covid_partition_counterexample:
  "length (cs_covid [obs_row ''A'' 2007 (Fin 1)]) + length (cs_noncovid [obs_row ''A'' 2007 (Fin 1)])
     \<noteq> length [obs_row ''A'' (2007::int) (Fin 1)]
   \<and> obs_row ''A'' 2007 (Fin 1) \<notin> set (cs_covid [obs_row ''A'' 2007 (Fin 1)])
   \<and> obs_row ''A'' 2007 (Fin 1) \<notin> set (cs_noncovid [obs_row ''A'' 2007 (Fin 1)])
   \<and> length (covid [obs_row ''A'' NaN (Fin 1)]) + length (non_covid [obs_row ''A'' NaN (Fin 1)])
     \<noteq> length [obs_row ''A'' NaN (Fin 1)]"
  by (simp add: cs_covid_def cs_noncovid_def covid_def non_covid_def between_def obs_row_def)

text \<open>
  Claim C2, amended. In models A and B, when every year of the panel is a whole number,
  every row is in exactly one of the COVID subset (2020 to 2021) and the non-COVID subset
  (before 2020, or 2022 and later), and the two row counts sum to the panel's. In the
  controls summary a row is in exactly one of the two subsets if and only if its year
  lies in 2008 to 2024, and the two row counts sum to the number of those rows.
\<close>

theorem covid_partition_amended:
  "((\<forall>r\<in>set df. \<exists>n::int. year r = Fin (of_int n)) \<longrightarrow>
      (\<forall>r\<in>set df. (r \<in> set (covid df)) \<noteq> (r \<in> set (non_covid df)))
      \<and> length (covid df) + length (non_covid df) = length df)
   \<and> (\<forall>r\<in>set idx. (r \<in> set (cs_covid idx)) \<noteq> (r \<in> set (cs_noncovid idx))
                     \<longleftrightarrow> between 2008 2024 (year r))
   \<and> length (cs_covid idx) + length (cs_noncovid idx)
       = length (filter (\<lambda>r. between 2008 2024 (year r)) idx)"
proof -
  have A: "(\<forall>r\<in>set df. (r \<in> set (covid df)) \<noteq> (r \<in> set (non_covid df)))
      \<and> length (covid df) + length (non_covid df) = length df"
    if whole: "\<forall>r\<in>set df. \<exists>n::int. year r = Fin (of_int n)"
  proof -
    have excl: "\<forall>r\<in>set df. (fl_le (Fin 2020) (year r) \<and> fl_le (year r) (Fin 2021))
                    \<noteq> (fl_lt (year r) (Fin 2020) \<or> fl_le (Fin 2022) (year r))"
    proof
      fix r assume "r \<in> set df"
      with whole obtain n :: int where "year r = Fin (of_int n)" by blast
      then show "(fl_le (Fin 2020) (year r) \<and> fl_le (year r) (Fin 2021))
                    \<noteq> (fl_lt (year r) (Fin 2020) \<or> fl_le (Fin 2022) (year r))"
        using whole_year_window[of n] by simp
    qed
    have "length (covid df) + length (non_covid df) = length df"
      unfolding covid_def non_covid_def by (rule length_filter_partition[OF excl])
    moreover have "\<forall>r\<in>set df. (r \<in> set (covid df)) \<noteq> (r \<in> set (non_covid df))"
      using excl by (simp add: covid_def non_covid_def)
    ultimately show ?thesis by blast
  qed
  have B: "\<forall>r\<in>set idx. (r \<in> set (cs_covid idx)) \<noteq> (r \<in> set (cs_noncovid idx))
                     \<longleftrightarrow> between 2008 2024 (year r)"
    by (auto simp: cs_covid_def cs_noncovid_def between_def)
  have "length (cs_covid idx) + length (cs_noncovid idx)
       = length (filter (\<lambda>r. between 2020 2021 (year r)
             \<or> (between 2008 2019 (year r) \<or> between 2022 2024 (year r))) idx)"
    unfolding cs_covid_def cs_noncovid_def
    by (rule length_filter_split) (auto simp: between_def)
  also have "\<dots> = length (filter (\<lambda>r. between 2008 2024 (year r)) idx)"
    by (rule arg_cong[where f=length], rule filter_cong) (auto simp: between_def)
  finally show ?thesis using A B by blast
qed

theorem covid_partition_amended_witness:
  "year (obs_row ''A'' (Fin 2019) (Fin 1)) = Fin (of_int 2019)
   \<and> year (obs_row ''A'' (Fin 2020) (Fin 1)) = Fin (of_int 2020)
   \<and> length (covid [obs_row ''A'' (Fin 2019) (Fin 1), obs_row ''A'' (Fin 2020) (Fin 1)]) = 1
   \<and> length (non_covid [obs_row ''A'' (Fin 2019) (Fin 1), obs_row ''A'' (Fin 2020) (Fin 1)]) = 1
   \<and> set [obs_row ''A'' (2007::int) (Fin 1), obs_row ''A'' 2021 (Fin 1)] \<noteq> {}
   \<and> length (cs_covid [obs_row ''A'' (2007::int) (Fin 1), obs_row ''A'' 2021 (Fin 1)])
      + length (cs_noncovid [obs_row ''A'' (2007::int) (Fin 1), obs_row ''A'' 2021 (Fin 1)]) = 1"
proof -
  let ?df = "[obs_row ''A'' (Fin 2019) (Fin 1), obs_row ''A'' (Fin 2020) (Fin 1)]"
  let ?idx = "[obs_row ''A'' (2007::int) (Fin 1), obs_row ''A'' 2021 (Fin 1)]"
  have y: "year (obs_row ''A'' (Fin 2019) (Fin 1)) = Fin (of_int 2019)"
       "year (obs_row ''A'' (Fin 2020) (Fin 1)) = Fin (of_int 2020)"
    by (simp_all add: obs_row_def)
  then have h: "\<forall>r\<in>set ?df. \<exists>n::int. year r = Fin (of_int n)"
    by (metis empty_iff empty_set set_ConsD)
  have c: "length (covid ?df) = 1" by (simp add: covid_def obs_row_def)
  from covid_partition_amended[of ?df ?idx] h have
    "length (covid ?df) + length (non_covid ?df) = length ?df"
    "length (cs_covid ?idx) + length (cs_noncovid ?idx)
       = length (filter (\<lambda>r. between 2008 2024 (year r)) ?idx)"
    by blast+
  with c y show ?thesis
    by (simp add: between_def obs_row_def)
qed

section \<open>Singleton entities\<close>

text \<open>The frame model A fits on the example table, full sample, ROA, lag 0.\<close>

lemma design_example:
  "panel_design model_a_scores (build_debt_ratio Fin raw_example) ROA 0 =
   [\<lparr>ent = ''A'', tm = Fin 2019, cells = [Fin 2, Fin 2, Fin 2, Fin 1]\<rparr>,
    \<lparr>ent = ''A'', tm = Fin 2020, cells = [Fin 4, Fin 4, Fin 4, Fin 1]\<rparr>]"
  by (simp add: panel_design_def drop_singletons_def dropna_def concat_yx_def lag_col_def
      model_a_scores_def value_count_def isna_def
      build_debt_ratio_def raw_example_def obs_row_def replace_inf_row_def replace_inf_def isinf_def)

lemma filter_key_filter:
  "P k \<Longrightarrow> filter (\<lambda>x. key x = k) (filter (\<lambda>x. P (key x)) xs) = filter (\<lambda>x. key x = k) xs"
  by (induction xs) auto

lemma value_count_filter_keep:
  assumes "P k"
  shows "value_count k (map key (filter (\<lambda>r. P (key r)) frame)) = value_count k (map key frame)"
  using filter_key_filter[of P k key frame, OF assms]
  by (simp add: value_count_def filter_map comp_def)

lemma drop_singletons_counts:
  assumes "r \<in> set (drop_singletons frame)"
  shows "2 \<le> value_count (ent r) (map ent (drop_singletons frame))"
proof -
  let ?P = "\<lambda>k. 2 \<le> value_count k (map ent frame)"
  have P: "?P (ent r)" using assms by (simp add: drop_singletons_def)
  have "drop_singletons frame = filter (\<lambda>r. ?P (ent r)) frame"
    by (simp add: drop_singletons_def)
  then show ?thesis using value_count_filter_keep[of ?P "ent r" ent frame, OF P] P by simp
qed

lemma keep_min3_counts:
  assumes "r \<in> set (keep_min3 df)"
  shows "3 \<le> value_count (firm r) (map firm (keep_min3 df))"
proof -
  let ?P = "\<lambda>k. 3 \<le> value_count k (map firm df)"
  have P: "?P (firm r)" using assms by (simp add: keep_min3_def)
  have "keep_min3 df = filter (\<lambda>r. ?P (firm r)) df"
    by (simp add: keep_min3_def)
  then show ?thesis using value_count_filter_keep[of ?P "firm r" firm df, OF P] P by simp
qed

lemma fit_one_estimator_input:
  assumes "\<forall>D. (\<forall>r\<in>set D. 2 \<le> value_count (ent r) (map ent D)) \<longrightarrow> est D = est' D"
  shows "fit_one cols est block oc L label = fit_one cols est' block oc L label"
proof -
  have "\<forall>r\<in>set (panel_design cols block oc L).
          2 \<le> value_count (ent r) (map ent (panel_design cols block oc L))"
    by (simp add: panel_design_def drop_singletons_counts)
  with assms have "est (panel_design cols block oc L) = est' (panel_design cols block oc L)"
    by blast
  then show ?thesis by (simp add: fit_one_def Let_def)
qed

text \<open>
  Claim C5, as stated, fails for the Hausman script. Its only filter on entity sizes runs
  on the table, before the lag and before the rows with a missing value are dropped. In
  the example panel both firms pass that filter; at lag 2 firm A keeps a single row, the
  design matrix has rows and columns, so it goes to both estimators with A as a singleton.
\<close>

theorem hausman_design_singleton_counterexample:
  "keep_min3 hpanel = hpanel
   \<and> d_index (build_design (keep_min3 hpanel) (ycol ROA) 2)
       = [(''A'', 2020), (''B'', 2020), (''B'', 2021)]
   \<and> value_count ''A'' (map fst (d_index (build_design (keep_min3 hpanel) (ycol ROA) 2))) = 1
   \<and> length (d_y (build_design (keep_min3 hpanel) (ycol ROA) 2)) \<noteq> 0
   \<and> length (d_X (build_design (keep_min3 hpanel) (ycol ROA) 2)) \<noteq> 0"
proof -
  have k: "keep_min3 hpanel = hpanel"
    by (simp add: keep_min3_def hpanel_def value_count_def obs_row_def)
  have D: "build_design hpanel (ycol ROA) 2 =
      \<lparr>d_index = [(''A'', 2020), (''B'', 2020), (''B'', 2021)],
       d_y = [Fin 30, Fin 60, Fin 70],
       d_X = [(''ESG_lag'', [Fin 10, Fin 40, Fin 50]),
              (''Employees'', [Fin 30, Fin 60, Fin 70]),
              (''Debt'', [Fin 30, Fin 60, Fin 70])]\<rparr>"
    by (simp add: build_design_def hpanel_def groupby_shift_def group_col_def shift_def
        obs_row_def isna_def Let_def eval_nat_numeral const_col_def pvar_def)
  show ?thesis unfolding k D by (simp add: value_count_def)
qed

text \<open>
  Claim C5, amended. In models A and B the frame handed to the estimator is the one left
  by \<open>drop_singletons\<close> after the missing-value drop: every entity in it has at least two
  rows, and what the estimator would do on a frame with a singleton entity cannot change
  a result. In the Hausman script every firm has at least three rows in the table the
  designs are built from; nothing is required of the design matrix itself.
\<close>

theorem design_entities_amended:
  "(\<forall>r\<in>set (panel_design cols block oc L).
       2 \<le> value_count (ent r) (map ent (panel_design cols block oc L)))
   \<and> ((\<forall>D. (\<forall>r\<in>set D. 2 \<le> value_count (ent r) (map ent D)) \<longrightarrow> est D = est' D)
        \<longrightarrow> fit_one cols est block oc L label = fit_one cols est' block oc L label)
   \<and> (\<forall>r\<in>set (keep_min3 df). 3 \<le> value_count (firm r) (map firm (keep_min3 df)))"
proof -
  have a: "\<forall>r\<in>set (panel_design cols block oc L).
       2 \<le> value_count (ent r) (map ent (panel_design cols block oc L))"
    by (simp add: panel_design_def drop_singletons_counts)
  have b: "(\<forall>D. (\<forall>r\<in>set D. 2 \<le> value_count (ent r) (map ent D)) \<longrightarrow> est D = est' D)
        \<longrightarrow> fit_one cols est block oc L label = fit_one cols est' block oc L label"
    using fit_one_estimator_input[of est est' cols block oc L label] by blast
  have c: "\<forall>r\<in>set (keep_min3 df). 3 \<le> value_count (firm r) (map firm (keep_min3 df))"
    by (simp add: keep_min3_counts)
  from a b c show ?thesis by blast
qed

theorem design_entities_amended_witness:
  "\<lparr>ent = ''A'', tm = Fin 2019, cells = [Fin 2, Fin 2, Fin 2, Fin 1]\<rparr>
       \<in> set (panel_design model_a_scores (build_debt_ratio Fin raw_example) ROA 0)
   \<and> 2 \<le> value_count ''A''
           (map ent (panel_design model_a_scores (build_debt_ratio Fin raw_example) ROA 0))
   \<and> fit_one model_a_scores
        (\<lambda>D. if list_ex (\<lambda>r. value_count (ent r) (map ent D) < 2) D
             then Inl (Exn ''singleton'') else Inl (Exn ''AbsorbingEffectError''))
        (build_debt_ratio Fin raw_example) ROA 0 ''Full Period''
       = Inl (Exn ''AbsorbingEffectError'')
   \<and> obs_row ''A'' 2018 (Fin 10) \<in> set (keep_min3 hpanel)
   \<and> 3 \<le> value_count ''A'' (map firm (keep_min3 hpanel))"
proof -
  let ?df = "build_debt_ratio Fin raw_example"
  let ?d = "\<lparr>ent = ''A'', tm = Fin 2019, cells = [Fin 2, Fin 2, Fin 2, Fin 1]\<rparr>"
  let ?est = "\<lambda>D::fl frow list. if list_ex (\<lambda>r. value_count (ent r) (map ent D) < 2) D
             then Inl (Exn ''singleton'') else (Inl (Exn ''AbsorbingEffectError'') :: exn + fit)"
  let ?est' = "\<lambda>D::fl frow list. (Inl (Exn ''AbsorbingEffectError'') :: exn + fit)"
  note T = design_entities_amended
    [of model_a_scores ?df ROA 0 ?est ?est' "''Full Period''" hpanel]
  have mem: "?d \<in> set (panel_design model_a_scores ?df ROA 0)"
    by (simp add: design_example)
  have agree: "\<forall>D. (\<forall>r\<in>set D. 2 \<le> value_count (ent r) (map ent D)) \<longrightarrow> ?est D = ?est' D"
    by (force simp: list_ex_iff not_le)
  have k: "obs_row ''A'' 2018 (Fin 10) \<in> set (keep_min3 hpanel)"
    by (simp add: keep_min3_def hpanel_def value_count_def obs_row_def)
  have e': "fit_one model_a_scores ?est' ?df ROA 0 ''Full Period'' = Inl (Exn ''AbsorbingEffectError'')"
    by (simp add: fit_one_def design_example value_count_def)
  from T mem have c2: "2 \<le> value_count (ent ?d) (map ent (panel_design model_a_scores ?df ROA 0))"
    by blast
  from T agree have eq: "fit_one model_a_scores ?est ?df ROA 0 ''Full Period''
                        = fit_one model_a_scores ?est' ?df ROA 0 ''Full Period''" by blast
  from T k have c3: "3 \<le> value_count (firm (obs_row ''A'' (2018::int) (Fin 10))) (map firm (keep_min3 hpanel))"
    by blast
  from mem c2 eq e' k c3 show ?thesis by (simp add: obs_row_def)
qed

section \<open>The debt ratio\<close>

lemma replace_inf_not_inf: "\<not> isinf (replace_inf x)"
  by (simp add: replace_inf_def isinf_def)

lemma fl_div_zero_assets: "replace_inf (fl_div rnd d (Fin 0)) = NaN"
  by (cases d) (auto simp: replace_inf_def isinf_def)

lemma fl_cases_fin: "\<not> isinf x \<Longrightarrow> \<not> isna x \<Longrightarrow> \<exists>q. x = Fin q"
  by (cases x) (auto simp: isinf_def isna_def)

lemma build_debt_ratio_nth:
  "j < length raw \<Longrightarrow>
   debt_ratio (build_debt_ratio rnd raw ! j)
     = replace_inf (fl_div rnd (debt (raw ! j)) (assets (raw ! j)))"
  by (simp add: build_debt_ratio_def replace_inf_row_def)

lemma build_debt_ratio_no_inf:
  assumes "r \<in> set (build_debt_ratio rnd raw)"
  shows "\<not> isinf (esg_score r) \<and> \<not> isinf (environmental_score r) \<and> \<not> isinf (social_score r)
         \<and> \<not> isinf (governance_score r) \<and> \<not> isinf (employees r) \<and> \<not> isinf (debt_ratio r)
         \<and> \<not> isinf (roa r) \<and> \<not> isinf (niat r)"
  using assms by (auto simp: build_debt_ratio_def replace_inf_row_def replace_inf_not_inf)

lemma group_col_subset: "set (group_col key col k rows) \<subseteq> col ` set rows"
  by (auto simp: group_col_def)

lemma groupby_shift_value:
  assumes "j < length rows"
  shows "groupby_shift key col L rows ! j = NaN \<or> groupby_shift key col L rows ! j \<in> col ` set rows"
proof (cases "rank key rows j < L")
  case True
  then show ?thesis using assms by (simp add: groupby_shift_nth)
next
  case False
  have "rank key rows j - L < length (group_col key col (key (rows ! j)) rows)"
    using rank_less[OF assms, of key col] by arith
  then have "group_col key col (key (rows ! j)) rows ! (rank key rows j - L)
             \<in> set (group_col key col (key (rows ! j)) rows)"
    by (rule nth_mem)
  then show ?thesis using False assms group_col_subset[of key col "key (rows ! j)" rows]
    by (auto simp: groupby_shift_nth)
qed

lemma lag_col_value:
  assumes "j < length block"
  shows "lag_col c L block ! j = NaN \<or> lag_col c L block ! j \<in> c ` set block"
proof (cases "L = 0")
  case True
  then show ?thesis using assms by (simp add: lag_col_def)
next
  case False
  then show ?thesis using groupby_shift_value[OF assms, of firm c L] by (simp add: lag_col_def)
qed

lemma ycol_no_inf: "\<not> isinf (roa r) \<Longrightarrow> \<not> isinf (niat r) \<Longrightarrow> \<not> isinf (ycol oc r)"
  by (cases oc) auto

lemma panel_design_source:
  assumes "d \<in> set (panel_design cols block oc L)"
  shows "\<exists>j<length block. d = \<lparr>ent = firm (block ! j), tm = year (block ! j),
               cells = ycol oc (block ! j) # map (\<lambda>c. lag_col c L block ! j) cols
                       @ [employees (block ! j), debt_ratio (block ! j)]\<rparr>
            \<and> list_all (\<lambda>c. \<not> isna c) (cells d)"
  using assms by (auto simp: panel_design_def drop_singletons_def dropna_def concat_yx_def)

lemma design_cells_finite:
  assumes sub: "set block \<subseteq> set (build_debt_ratio rnd raw)"
    and cols: "\<forall>c\<in>set cols. \<forall>r\<in>set block. \<not> isinf (c r)"
    and d: "d \<in> set (panel_design cols block oc L)"
    and c: "x \<in> set (cells d)"
  shows "\<exists>q. x = Fin q"
proof -
  from panel_design_source[OF d] obtain j where j: "j < length block"
    and deq: "cells d = ycol oc (block ! j) # map (\<lambda>c. lag_col c L block ! j) cols
                       @ [employees (block ! j), debt_ratio (block ! j)]"
    and nn: "list_all (\<lambda>c. \<not> isna c) (cells d)"
    by auto
  have bj: "block ! j \<in> set (build_debt_ratio rnd raw)" using sub j by auto
  note ni = build_debt_ratio_no_inf[OF bj]
  have xna: "\<not> isna x" using nn c by (simp add: list_all_iff)
  have "\<not> isinf x"
  proof -
    from c deq consider "x = ycol oc (block ! j)" | "x = employees (block ! j)"
      | "x = debt_ratio (block ! j)" | cc where "cc \<in> set cols" "x = lag_col cc L block ! j"
      by auto
    then show ?thesis
    proof cases
      case 1 then show ?thesis using ni by (simp add: ycol_no_inf)
    next
      case 2 then show ?thesis using ni by simp
    next
      case 3 then show ?thesis using ni by simp
    next
      case 4
      from lag_col_value[OF j, of cc L] show ?thesis
      proof
        assume "lag_col cc L block ! j = NaN"
        then show ?thesis using 4 by (simp add: isinf_def)
      next
        assume "lag_col cc L block ! j \<in> cc ` set block"
        then show ?thesis using 4 cols by auto
      qed
    qed
  qed
  then show ?thesis using xna by (rule fl_cases_fin)
qed

lemma model_scores_no_inf:
  assumes "set block \<subseteq> set (build_debt_ratio rnd raw)"
    and "cols = model_a_scores \<or> cols = model_b_scores"
  shows "\<forall>c\<in>set cols. \<forall>r\<in>set block. \<not> isinf (c r)"
proof (intro ballI)
  fix c r assume c: "c \<in> set cols" and r: "r \<in> set block"
  then have "r \<in> set (build_debt_ratio rnd raw)" using assms(1) by auto
  note ni = build_debt_ratio_no_inf[OF this]
  from c assms(2) have "c = esg_score \<or> c = environmental_score \<or> c = social_score \<or> c = governance_score"
    by (auto simp: model_a_scores_def model_b_scores_def)
  then show "\<not> isinf (c r)" using ni by auto
qed

lemma design_row_debt_ratio:
  assumes sub: "set block \<subseteq> set (build_debt_ratio rnd raw)"
    and d: "d \<in> set (panel_design cols block oc L)"
  shows "\<exists>j<length block. ent d = firm (block ! j) \<and> tm d = year (block ! j)
           \<and> last (cells d) = debt_ratio (block ! j) \<and> (\<exists>q. debt_ratio (block ! j) = Fin q)"
proof -
  from panel_design_source[OF d] obtain j where j: "j < length block"
    and deq: "d = \<lparr>ent = firm (block ! j), tm = year (block ! j),
               cells = ycol oc (block ! j) # map (\<lambda>c. lag_col c L block ! j) cols
                       @ [employees (block ! j), debt_ratio (block ! j)]\<rparr>"
    and nn: "list_all (\<lambda>c. \<not> isna c) (cells d)"
    by auto
  have bj: "block ! j \<in> set (build_debt_ratio rnd raw)" using sub j by auto
  have "\<not> isna (debt_ratio (block ! j))" using nn deq by (simp add: list_all_iff)
  then have "\<exists>q. debt_ratio (block ! j) = Fin q"
    using build_debt_ratio_no_inf[OF bj] fl_cases_fin by blast
  then show ?thesis using j deq by auto
qed

lemma combos_a_subset:
  "(label, sub, oc, L) \<in> set (combos_a hotel df) \<Longrightarrow> set sub \<subseteq> set df"
  by (auto simp: combos_a_def fits_of_def covid_def non_covid_def)

lemma combos_b_subset:
  "(label, sub, oc, L) \<in> set (combos_b hotel df) \<Longrightarrow> set sub \<subseteq> set df"
  by (auto simp: combos_b_def fits_of_def covid_def non_covid_def)

text \<open>
  Claim C10. In models A and B the debt ratio of a row is Debt / Assets with both
  infinities replaced by \<open>NaN\<close>; with Assets = 0 it is \<open>NaN\<close> whatever Debt is. Every block
  the batches fit is a part of the table so prepared, and in the frame that \<open>fit_one\<close>
  hands to the estimator for such a block every cell is a finite number, and every row
  comes from a row of the block whose debt ratio is a finite number.
\<close>

theorem debt_ratio_infinities_replaced:
  "(\<forall>j<length raw.
       debt_ratio (build_debt_ratio rnd raw ! j)
         = replace_inf (fl_div rnd (debt (raw ! j)) (assets (raw ! j)))
       \<and> \<not> isinf (debt_ratio (build_debt_ratio rnd raw ! j))
       \<and> (assets (raw ! j) = Fin 0 \<longrightarrow> debt_ratio (build_debt_ratio rnd raw ! j) = NaN))
   \<and> (\<forall>(label, sub, oc, L)\<in>set (combos_a hotel df) \<union> set (combos_b hotel df). set sub \<subseteq> set df)
   \<and> (set block \<subseteq> set (build_debt_ratio rnd raw)
        \<longrightarrow> cols = model_a_scores \<or> cols = model_b_scores
        \<longrightarrow> (\<forall>d\<in>set (panel_design cols block oc L).
               (\<forall>x\<in>set (cells d). \<exists>q. x = Fin q)
               \<and> (\<exists>j<length block. ent d = firm (block ! j) \<and> tm d = year (block ! j)
                      \<and> last (cells d) = debt_ratio (block ! j)
                      \<and> (\<exists>q. debt_ratio (block ! j) = Fin q))))"
proof -
  have a: "\<forall>j<length raw.
       debt_ratio (build_debt_ratio rnd raw ! j)
         = replace_inf (fl_div rnd (debt (raw ! j)) (assets (raw ! j)))
       \<and> \<not> isinf (debt_ratio (build_debt_ratio rnd raw ! j))
       \<and> (assets (raw ! j) = Fin 0 \<longrightarrow> debt_ratio (build_debt_ratio rnd raw ! j) = NaN)"
    by (simp add: build_debt_ratio_nth replace_inf_not_inf fl_div_zero_assets)
  have b: "\<forall>(label, sub, oc, L)\<in>set (combos_a hotel df) \<union> set (combos_b hotel df).
             set sub \<subseteq> set df"
    using combos_a_subset combos_b_subset by fast
  have c: "\<forall>d\<in>set (panel_design cols block oc L).
               (\<forall>x\<in>set (cells d). \<exists>q. x = Fin q)
               \<and> (\<exists>j<length block. ent d = firm (block ! j) \<and> tm d = year (block ! j)
                      \<and> last (cells d) = debt_ratio (block ! j)
                      \<and> (\<exists>q. debt_ratio (block ! j) = Fin q))"
    if sub: "set block \<subseteq> set (build_debt_ratio rnd raw)"
      and cols: "cols = model_a_scores \<or> cols = model_b_scores"
  proof
    fix d assume d: "d \<in> set (panel_design cols block oc L)"
    have "\<forall>x\<in>set (cells d). \<exists>q. x = Fin q"
      using design_cells_finite[OF sub model_scores_no_inf[OF sub cols] d] by blast
    then show "(\<forall>x\<in>set (cells d). \<exists>q. x = Fin q)
               \<and> (\<exists>j<length block. ent d = firm (block ! j) \<and> tm d = year (block ! j)
                      \<and> last (cells d) = debt_ratio (block ! j)
                      \<and> (\<exists>q. debt_ratio (block ! j) = Fin q))"
      using design_row_debt_ratio[OF sub d] by blast
  qed
  from a b c show ?thesis by blast
qed

theorem debt_ratio_infinities_replaced_witness:
  "(2::nat) < length raw_example
   \<and> assets (raw_example ! 2) = Fin 0
   \<and> debt_ratio (build_debt_ratio Fin raw_example ! 2) = NaN
   \<and> set (build_debt_ratio Fin raw_example) \<subseteq> set (build_debt_ratio Fin raw_example)
   \<and> \<lparr>ent = ''A'', tm = Fin 2019, cells = [Fin 2, Fin 2, Fin 2, Fin 1]\<rparr>
       \<in> set (panel_design model_a_scores (build_debt_ratio Fin raw_example) ROA 0)
   \<and> (\<exists>q. last [Fin 2, Fin 2, Fin 2, Fin 1] = Fin q)
   \<and> (''Full Period'', build_debt_ratio Fin raw_example, ROA, 0)
       \<in> set (combos_a (\<lambda>s. False) (build_debt_ratio Fin raw_example))"
proof -
  let ?df = "build_debt_ratio Fin raw_example"
  let ?d = "\<lparr>ent = ''A'', tm = Fin 2019, cells = [Fin 2, Fin 2, Fin 2, Fin 1]\<rparr>"
  note T = debt_ratio_infinities_replaced
    [of raw_example Fin "\<lambda>s. False" ?df ?df model_a_scores ROA 0]
  have len: "(2::nat) < length raw_example" by (simp add: raw_example_def)
  have as: "assets (raw_example ! 2) = Fin 0" by (simp add: raw_example_def obs_row_def)
  have mem: "?d \<in> set (panel_design model_a_scores ?df ROA 0)"
    by (simp add: design_example)
  have cmb: "(''Full Period'', ?df, ROA, 0) \<in> set (combos_a (\<lambda>s. False) ?df)"
    by (simp add: combos_a_def fits_of_def OUTCOMES_def LAGS_def)
  from T len as have nan: "debt_ratio (?df ! 2) = NaN" by blast
  from T mem have fin: "\<forall>x\<in>set (cells ?d). \<exists>q. x = Fin q" by blast
  from fin have "\<exists>q. last [Fin 2, Fin 2, Fin 2, Fin 1] = Fin q" by simp
  with len as nan mem cmb show ?thesis by simp
qed

section \<open>Failures of one combination\<close>

lemma collect_Inr_all:
  "collect f xs = Inr ys \<Longrightarrow> x \<in> set xs \<Longrightarrow> \<exists>y. f x = Inr y"
  by (induction xs arbitrary: ys) (auto split: sum.splits)

lemma collect_aborts:
  assumes "x \<in> set xs" and "f x = Inl e"
  shows "\<exists>e'. collect f xs = Inl e'"
proof (cases "collect f xs")
  case (Inl e')
  then show ?thesis by blast
next
  case (Inr ys)
  from collect_Inr_all[OF Inr assms(1)] assms(2) show ?thesis by simp
qed

lemma panel_design_no_singleton:
  "\<not> list_ex (\<lambda>r. value_count (ent r) (map ent (panel_design cols block oc L)) < 2)
        (panel_design cols block oc L)"
  using drop_singletons_counts[of _ "dropna (concat_yx cols block oc L)"]
  by (auto simp: list_ex_iff panel_design_def not_less)

lemma fit_one_raises:
  assumes "panel_design cols sub oc L \<noteq> []" and "est (panel_design cols sub oc L) = Inl e"
  shows "fit_one cols est sub oc L label = Inl e"
  using assms panel_design_no_singleton[of cols sub oc L]
  by (simp add: fit_one_def Let_def)

lemma try_fit_note:
  "cs_note (try_fit est D y L label)
     = (case est D y of Inr res \<Rightarrow> [] | Inl (Exn name) \<Rightarrow> ''skipped: '' @ name)"
  by (simp add: try_fit_def Let_def split: sum.splits exn.splits)

text \<open>
  Claim C4 against models A and B. \<open>fit_one\<close> calls the estimator outside any
  \<open>try\<close>: when the estimator raises on the frame of one combination of the batch, the
  batch ends with an exception and yields no rows at all, where the claim wants a skipped
  row for that combination and the remaining combinations processed. The controls
  summary does what the claim says: \<open>try_fit\<close> turns the exception into the note of the
  row.
\<close>

theorem estimation_failure_aborts_batch:
  "((label, sub, oc, L) \<in> set (combos_a hotel df)
      \<longrightarrow> panel_design model_a_scores sub oc L \<noteq> []
      \<longrightarrow> est (panel_design model_a_scores sub oc L) = Inl e
      \<longrightarrow> (\<exists>e'. main_a est hotel df = Inl e'))
   \<and> ((label, sub, oc, L) \<in> set (combos_b hotel df)
      \<longrightarrow> panel_design model_b_scores sub oc L \<noteq> []
      \<longrightarrow> est (panel_design model_b_scores sub oc L) = Inl e
      \<longrightarrow> (\<exists>e'. main_b est hotel df = Inl e'))
   \<and> cs_note (try_fit cs_est D y K cs_label)
       = (case cs_est D y of Inr res \<Rightarrow> [] | Inl (Exn name) \<Rightarrow> ''skipped: '' @ name)"
proof -
  have a: "\<exists>e'. main_a est hotel df = Inl e'"
    if "(label, sub, oc, L) \<in> set (combos_a hotel df)"
      and "panel_design model_a_scores sub oc L \<noteq> []"
      and "est (panel_design model_a_scores sub oc L) = Inl e"
  proof -
    have "fit_one model_a_scores est sub oc L label = Inl e"
      using that(2,3) by (rule fit_one_raises)
    then have "(\<lambda>(label, sub, oc, L). fit_one model_a_scores est sub oc L label) (label, sub, oc, L)
               = Inl e"
      by simp
    with that(1) show ?thesis
      unfolding main_a_def
      using collect_aborts
        [of "(label, sub, oc, L)" "combos_a hotel df"
            "\<lambda>(label, sub, oc, L). fit_one model_a_scores est sub oc L label" e]
      by blast
  qed
  have b: "\<exists>e'. main_b est hotel df = Inl e'"
    if "(label, sub, oc, L) \<in> set (combos_b hotel df)"
      and "panel_design model_b_scores sub oc L \<noteq> []"
      and "est (panel_design model_b_scores sub oc L) = Inl e"
  proof -
    have "fit_one model_b_scores est sub oc L label = Inl e"
      using that(2,3) by (rule fit_one_raises)
    then have "(\<lambda>(label, sub, oc, L). fit_one model_b_scores est sub oc L label) (label, sub, oc, L)
               = Inl e"
      by simp
    with that(1) show ?thesis
      unfolding main_b_def
      using collect_aborts
        [of "(label, sub, oc, L)" "combos_b hotel df"
            "\<lambda>(label, sub, oc, L). fit_one model_b_scores est sub oc L label" e]
      by blast
  qed
  from a b try_fit_note[of cs_est D y K cs_label] show ?thesis by blast
qed

theorem estimation_failure_aborts_batch_witness:
  "(''Full Period'', build_debt_ratio Fin raw_example, ROA, 0)
       \<in> set (combos_a (\<lambda>s. False) (build_debt_ratio Fin raw_example))
   \<and> panel_design model_a_scores (build_debt_ratio Fin raw_example) ROA 0 \<noteq> []
   \<and> main_a (\<lambda>D. Inl (Exn ''AbsorbingEffectError'')) (\<lambda>s. False)
        (build_debt_ratio Fin raw_example)
       = Inl (Exn ''AbsorbingEffectError'')"
proof -
  let ?df = "build_debt_ratio Fin raw_example"
  let ?est = "\<lambda>D::fl frow list. (Inl (Exn ''AbsorbingEffectError'') :: exn + fit)"
  have cmb: "(''Full Period'', ?df, ROA, 0) \<in> set (combos_a (\<lambda>s. False) ?df)"
    by (simp add: combos_a_def fits_of_def OUTCOMES_def LAGS_def)
  have ne: "panel_design model_a_scores ?df ROA 0 \<noteq> []"
    by (simp add: design_example)
  have ab: "\<exists>e'. main_a ?est (\<lambda>s. False) ?df = Inl e'"
    using estimation_failure_aborts_batch
      [of "''Full Period''" ?df ROA 0 "\<lambda>s. False" ?df ?est "Exn ''AbsorbingEffectError''"]
      cmb ne by blast
  have "main_a ?est (\<lambda>s. False) ?df = Inl (Exn ''AbsorbingEffectError'')"
    using ab
    by (simp add: main_a_def combos_a_def fits_of_def OUTCOMES_def LAGS_def fit_one_def
        design_example value_count_def)
  with cmb ne show ?thesis by blast
qed

section \<open>Insufficient panels in the controls summary\<close>

lemma nunique_card: "nunique ks = card (set ks)"
  by (simp add: nunique_def length_remdups_card_conv)

lemma valid_panel_iff:
  "valid_panel D \<longleftrightarrow> 2 \<le> card (ent ` set D) \<and> 2 \<le> card (tm ` set D) \<and> 10 < length D"
  by (simp add: valid_panel_def nunique_card)

lemma run_block_length: "length (run_block est df label) = 6"
  by (simp add: run_block_def Y_LIST_def Let_def)

lemma run_block_nth:
  assumes "L < 3" and "i < 2"
  shows "run_block est df label ! (2 * L + i)
         = (if \<not> valid_panel (lag_frame df L)
            then skipped_row (lag_frame df L) (Y_LIST ! i) L label
            else try_fit est (lag_frame df L) (Y_LIST ! i) L label)"
proof -
  define blk where "blk L =
     (if \<not> valid_panel (lag_frame df L)
      then map (\<lambda>y. skipped_row (lag_frame df L) y L label) Y_LIST
      else map (\<lambda>y. try_fit est (lag_frame df L) y L label) Y_LIST)" for L
  have rb: "run_block est df label = blk 0 @ blk 1 @ blk 2"
    by (simp add: run_block_def blk_def Let_def)
  have len: "length (blk K) = 2" for K
    by (simp add: blk_def Y_LIST_def)
  have el: "blk K ! i
         = (if \<not> valid_panel (lag_frame df K)
            then skipped_row (lag_frame df K) (Y_LIST ! i) K label
            else try_fit est (lag_frame df K) (Y_LIST ! i) K label)" for K
    using less_2_cases[OF assms(2)] by (auto simp: blk_def Y_LIST_def)
  from assms(1) consider "L = 0" | "L = 1" | "L = 2" by arith
  then show ?thesis
  proof cases
    case 1
    then show ?thesis using assms(2) by (simp add: rb nth_append len el)
  next
    case 2
    then show ?thesis using assms(2) by (simp add: rb nth_append len el)
  next
    case 3
    then show ?thesis using assms(2) by (simp add: rb nth_append len el)
  qed
qed

lemma run_block_cong:
  assumes "\<forall>D y. valid_panel D \<longrightarrow> est D y = est' D y"
  shows "run_block est df label = run_block est' df label"
proof -
  have "try_fit est D y L label = try_fit est' D y L label" if "valid_panel D" for D y L
    using assms that by (simp add: try_fit_def)
  then show ?thesis by (simp add: run_block_def Let_def)
qed

text \<open>
  Claim C8. \<open>run_block\<close> always returns its six rows, one per lag 0, 1, 2 and outcome.
  When the frame of a lag (without its rows with missing values) has fewer than two
  entities, fewer than two years or at most ten rows, both rows of that lag are the
  skipped row, with the note \<open>skipped: insufficient panel\<close> and \<open>NaN\<close> statistics; otherwise
  they are the rows of \<open>try_fit\<close>. The estimator is used on sufficient frames only: what
  it would do on any other frame cannot change the result.
\<close>

theorem insufficient_panel_skipped:
  "length (run_block est df label) = 6
   \<and> (\<forall>L<3. \<forall>i<2.
        (\<not> valid_panel (lag_frame df L) \<longrightarrow>
           run_block est df label ! (2 * L + i)
             = skipped_row (lag_frame df L) (Y_LIST ! i) L label)
        \<and> (valid_panel (lag_frame df L) \<longrightarrow>
           run_block est df label ! (2 * L + i)
             = try_fit est (lag_frame df L) (Y_LIST ! i) L label))
   \<and> cs_note (skipped_row D y K label) = ''skipped: insufficient panel''
   \<and> coef_Employees (skipped_row D y K label) = NaN
   \<and> p_Employees (skipped_row D y K label) = NaN
   \<and> coef_Debt (skipped_row D y K label) = NaN
   \<and> p_Debt (skipped_row D y K label) = NaN
   \<and> (valid_panel D \<longleftrightarrow> 2 \<le> card (ent ` set D) \<and> 2 \<le> card (tm ` set D) \<and> 10 < length D)
   \<and> ((\<forall>D y. valid_panel D \<longrightarrow> est D y = est' D y)
        \<longrightarrow> run_block est df label = run_block est' df label)"
proof -
  have a: "\<forall>L<3. \<forall>i<2.
        (\<not> valid_panel (lag_frame df L) \<longrightarrow>
           run_block est df label ! (2 * L + i)
             = skipped_row (lag_frame df L) (Y_LIST ! i) L label)
        \<and> (valid_panel (lag_frame df L) \<longrightarrow>
           run_block est df label ! (2 * L + i)
             = try_fit est (lag_frame df L) (Y_LIST ! i) L label)"
    by (simp add: run_block_nth)
  have b: "cs_note (skipped_row D y K label) = ''skipped: insufficient panel''
   \<and> coef_Employees (skipped_row D y K label) = NaN
   \<and> p_Employees (skipped_row D y K label) = NaN
   \<and> coef_Debt (skipped_row D y K label) = NaN
   \<and> p_Debt (skipped_row D y K label) = NaN"
    by (simp add: skipped_row_def)
  have c: "(\<forall>D y. valid_panel D \<longrightarrow> est D y = est' D y)
        \<longrightarrow> run_block est df label = run_block est' df label"
    using run_block_cong[of est est' df label] by blast
  from a b c run_block_length[of est df label] valid_panel_iff[of D] show ?thesis
    by blast
qed

lemma lag_frame_zero:
  "lag_frame df 0 = dropna (map (\<lambda>r. \<lparr>ent = firm r, tm = year r,
                            cells = [roa r, niat r, esg_score r, employees r, debt r]\<rparr>) df)"
proof -
  have "zip df (map esg_score df) = map (\<lambda>r. (r, esg_score r)) df"
    by (induction df) auto
  then show ?thesis
    by (simp add: lag_frame_def groupby_shift_zero comp_def)
qed

lemma cs_valid: "valid_panel (lag_frame cs_panel 0)"
  by (simp add: lag_frame_zero cs_panel_def obs_row_def dropna_def isna_def valid_panel_def nunique_def)

lemma cs_invalid: "\<not> valid_panel (lag_frame [obs_row ''A'' 2019 (Fin 1)] 0)"
  by (simp add: lag_frame_zero obs_row_def dropna_def isna_def valid_panel_def nunique_def)

theorem insufficient_panel_skipped_witness:
  "\<not> valid_panel (lag_frame [obs_row ''A'' 2019 (Fin 1)] 0)
   \<and> cs_note (run_block (\<lambda>D y. Inl (Exn ''ValueError'')) [obs_row ''A'' 2019 (Fin 1)]
                ''Full sample'' ! 0)
       = ''skipped: insufficient panel''
   \<and> valid_panel (lag_frame cs_panel 0)
   \<and> cs_note (run_block (\<lambda>D y. Inl (Exn ''ValueError'')) cs_panel ''Full sample'' ! 1)
       = ''skipped: ValueError''
   \<and> run_block (\<lambda>D y. if valid_panel D then Inl (Exn ''ValueError'') else Inl (Exn ''unseen''))
        cs_panel ''Full sample''
       = run_block (\<lambda>D y. Inl (Exn ''ValueError'')) cs_panel ''Full sample''"
proof -
  let ?est = "\<lambda>(D::int frow list) (y::outcome). (Inl (Exn ''ValueError'') :: exn + cs_fit)"
  let ?est' = "\<lambda>(D::int frow list) (y::outcome).
      if valid_panel D then Inl (Exn ''ValueError'') else (Inl (Exn ''unseen'') :: exn + cs_fit)"
  let ?one = "[obs_row ''A'' (2019::int) (Fin 1)]"
  note T1 = insufficient_panel_skipped[of ?est ?one "''Full sample''" "[]" ROA 0 ?est]
  note T2 = insufficient_panel_skipped[of ?est' cs_panel "''Full sample''" "[]" ROA 0 ?est]
  note T3 = insufficient_panel_skipped[of ?est cs_panel "''Full sample''" "[]" ROA 0 ?est]
  have r0: "run_block ?est ?one ''Full sample'' ! (2 * 0 + 0)
        = skipped_row (lag_frame ?one 0) (Y_LIST ! 0) 0 ''Full sample''"
    using T1[THEN conjunct2, THEN conjunct1, rule_format, of 0 0] cs_invalid by simp
  have r1: "run_block ?est cs_panel ''Full sample'' ! (2 * 0 + 1)
        = try_fit ?est (lag_frame cs_panel 0) (Y_LIST ! 1) 0 ''Full sample''"
    using T3[THEN conjunct2, THEN conjunct1, rule_format, of 0 1] cs_valid by simp
  have agree: "\<forall>D y. valid_panel D \<longrightarrow> ?est' D y = ?est D y" by simp
  with T2 have eq: "run_block ?est' cs_panel ''Full sample'' = run_block ?est cs_panel ''Full sample''"
    by blast
  from r0 have n0: "cs_note (run_block ?est ?one ''Full sample'' ! 0) = ''skipped: insufficient panel''"
    by (simp add: skipped_row_def)
  from r1 have n1: "cs_note (run_block ?est cs_panel ''Full sample'' ! 1) = ''skipped: ValueError''"
    by (simp add: try_fit_def)
  from cs_invalid cs_valid n0 n1 eq show ?thesis by blast
qed

section \<open>The Hausman comparison\<close>

lemma those_all_map_Some:
  "list_all (\<lambda>x. f x \<noteq> None) xs \<Longrightarrow> those_all (map f xs) = Some (map (\<lambda>x. the (f x)) xs)"
  by (induction xs) auto

lemma map2_same: "map2 f (map g xs) (map h xs) = map (\<lambda>x. f (g x) (h x)) xs"
  by (induction xs) auto

lemma shared_params:
  assumes "shared fe re keep"
  shows "params_at fe keep = Some (map (\<lambda>a. the (h_params fe a)) keep)"
    and "params_at re keep = Some (map (\<lambda>a. the (h_params re a)) keep)"
  using assms
  by (simp_all add: shared_def params_at_def list_all_iff those_all_map_Some)

lemma those_all_map_cong_Some:
  "(\<And>x. x \<in> set xs \<Longrightarrow> f x = Some (g x)) \<Longrightarrow> those_all (map f xs) = Some (map g xs)"
  by (induction xs) auto

lemma shared_cov:
  assumes "shared fe re keep"
  shows "cov_loc fe keep = Some (map (\<lambda>a. map (\<lambda>b. the (h_cov fe a b)) keep) keep)"
    and "cov_loc re keep = Some (map (\<lambda>a. map (\<lambda>b. the (h_cov re a b)) keep) keep)"
proof -
  have fe: "those_all (map (\<lambda>b. h_cov fe a b) keep) = Some (map (\<lambda>b. the (h_cov fe a b)) keep)"
    if "a \<in> set keep" for a
    using assms that by (intro those_all_map_Some) (simp add: shared_def list_all_iff)
  have re: "those_all (map (\<lambda>b. h_cov re a b) keep) = Some (map (\<lambda>b. the (h_cov re a b)) keep)"
    if "a \<in> set keep" for a
    using assms that by (intro those_all_map_Some) (simp add: shared_def list_all_iff)
  show "cov_loc fe keep = Some (map (\<lambda>a. map (\<lambda>b. the (h_cov fe a b)) keep) keep)"
    unfolding cov_loc_def by (rule those_all_map_cong_Some) (rule fe)
  show "cov_loc re keep = Some (map (\<lambda>a. map (\<lambda>b. the (h_cov re a b)) keep) keep)"
    unfolding cov_loc_def by (rule those_all_map_cong_Some) (rule re)
qed

lemma hausman_stat_shared:
  assumes "shared fe re keep"
  shows "hausman_stat lib fe re keep =
     Inr (dot (vecmat (diff_vec fe re keep) (used_inverse lib (diff_cov fe re keep)))
              (diff_vec fe re keep),
          length keep,
          1 - chi2_cdf lib (dot (vecmat (diff_vec fe re keep)
                                   (used_inverse lib (diff_cov fe re keep)))
                              (diff_vec fe re keep)) (length keep))"
  by (simp add: hausman_stat_def shared_params[OF assms] shared_cov[OF assms]
      map2_same diff_vec_def diff_cov_def used_inverse_def Let_def)

lemma sum_list_map2:
  "length xs = length ys \<Longrightarrow> sum_list (map2 f xs ys) = (\<Sum>i<length xs. f (xs ! i) (ys ! i))"
proof -
  assume l: "length xs = length ys"
  have "sum_list (map2 f xs ys) = (\<Sum>i = 0..<length (map2 f xs ys). map2 f xs ys ! i)"
    by (rule sum_list_sum_nth)
  also have "\<dots> = (\<Sum>i = 0..<length xs. f (xs ! i) (ys ! i))"
    using l by (intro sum.cong) auto
  finally show ?thesis by (simp add: atLeast0LessThan)
qed

lemma dot_sum: "length xs = length ys \<Longrightarrow> dot xs ys = (\<Sum>i<length xs. xs ! i * ys ! i)"
  by (simp add: dot_def sum_list_map2)

lemma dot_vecmat_quad_form:
  assumes "length W = length d"
  shows "dot (vecmat d W) d = quad_form d W"
proof -
  let ?n = "length d"
  have col: "vecmat d W ! j = (\<Sum>i<?n. d ! i * (W ! i ! j))" if "j < ?n" for j
    using that assms by (simp add: vecmat_def dot_sum)
  have "dot (vecmat d W) d = (\<Sum>j<?n. vecmat d W ! j * d ! j)"
    by (simp add: dot_sum vecmat_def)
  also have "\<dots> = (\<Sum>j<?n. (\<Sum>i<?n. d ! i * (W ! i ! j)) * d ! j)"
    by (intro sum.cong) (simp_all add: col)
  also have "\<dots> = (\<Sum>j<?n. \<Sum>i<?n. d ! i * (W ! i ! j) * d ! j)"
    by (simp add: sum_distrib_right)
  also have "\<dots> = (\<Sum>i<?n. \<Sum>j<?n. d ! i * (W ! i ! j) * d ! j)"
    by (rule sum.swap)
  finally show ?thesis by (simp add: quad_form_def)
qed

lemma design_one:
  "build_design hpanel_one (ycol ROA) 0 =
     \<lparr>d_index = [(''A'', 2018), (''A'', 2019), (''A'', 2020),
                  (''B'', 2018), (''B'', 2019), (''B'', 2020), (''B'', 2021)],
      d_y = [Fin 10, Fin 20, Fin 30, Fin 40, Fin 50, Fin 60, Fin 70],
      d_X = [(''ESG_lag'', [Fin 10, Fin 20, Fin 30, Fin 40, Fin 50, Fin 60, Fin 70])]\<rparr>"
  by (simp add: build_design_def hpanel_one_def hpanel_def groupby_shift_zero
      obs_row_def isna_def Let_def const_col_def pvar_def)

lemma shared_example: "shared (fit_example b v) (fit_example b' v') [''ESG_lag'']"
  by (simp add: shared_def fit_example_def)

lemma diff_example:
  "diff_vec (fit_example b v) (fit_example b' v') [''ESG_lag''] = [b - b']"
  "diff_cov (fit_example b v) (fit_example b' v') [''ESG_lag''] = [[v - v']]"
  by (simp_all add: diff_vec_def diff_cov_def fit_example_def)

lemma used_inverse_example:
  "used_inverse lib_example [[v]] = [[if v = 0 then 0 else 1 / v]]"
  by (simp add: used_inverse_def lib_example_def inv_1x1_def pinv_1x1_def)

lemma lib_example_simps:
  "chi2_cdf lib_example x k = (if x \<le> 0 then 0 else x / (1 + x))"
  "round4 lib_example x = x"
  "fmt6g lib_example x = x"
  "linalg_inv lib_example = inv_1x1"
  "linalg_pinv lib_example = pinv_1x1"
  by (simp_all add: lib_example_def)

lemma quad_form_1x1: "quad_form [a] [[w]] = a * w * a"
  by (simp add: quad_form_def)

text \<open>
  Claim C1. For two fits that share the regressors \<open>keep_idx\<close>, \<open>hausman_stat\<close> returns the
  statistic \<open>d\<^sup>T W d\<close>, with \<open>d\<close> the difference of the coefficients, \<open>V\<close> the difference of
  the covariances and \<open>W\<close> the inverse of \<open>V\<close> whenever the inversion succeeds (the matrix
  the library returns having one row per shared regressor); the number of
  shared regressors as degrees of freedom; and one minus the distribution function at the
  statistic as p-value. The row of the appendix has the decision FE when that p-value is
  below 0.05 and RE otherwise. When the design matrix of an (outcome, lag) has no row or
  no regressor column, the row has the decision NA, no statistic and no p-value, and
  neither estimator is consulted.
\<close>

theorem hausman_comparator:
  "(shared fe_res re_res keep_idx
      \<longrightarrow> length (used_inverse lib (diff_cov fe_res re_res keep_idx)) = length keep_idx
      \<longrightarrow> hausman_stat lib fe_res re_res keep_idx
          = Inr (quad_form (diff_vec fe_res re_res keep_idx)
                           (used_inverse lib (diff_cov fe_res re_res keep_idx)),
                 length keep_idx,
                 1 - chi2_cdf lib (quad_form (diff_vec fe_res re_res keep_idx)
                                     (used_inverse lib (diff_cov fe_res re_res keep_idx)))
                                  (length keep_idx)))
   \<and> (linalg_inv lib V = Some W \<longrightarrow> used_inverse lib V = W)
   \<and> (length (d_y (build_design pnl (ycol oc) L)) = 0
        \<or> length (d_X (build_design pnl (ycol oc) L)) = 0
      \<longrightarrow> hausman_row lib fe_est re_est pnl sample_label (oc, L)
          = Inr \<lparr>h_sample = sample_label, h_outcome = oc, h_lag = L,
                 chi2 = None, h_df = 0, h_p = None, decision = ''NA''\<rparr>)
   \<and> (length (d_y (build_design pnl (ycol oc) L)) \<noteq> 0
      \<longrightarrow> length (d_X (build_design pnl (ycol oc) L)) \<noteq> 0
      \<longrightarrow> fe_est (build_design pnl (ycol oc) L) = Inr fe
      \<longrightarrow> re_est (build_design pnl (ycol oc) L) = Inr re
      \<longrightarrow> hausman_stat lib fe re (map fst (d_X (build_design pnl (ycol oc) L))) = Inr (s, k, p)
      \<longrightarrow> hausman_row lib fe_est re_est pnl sample_label (oc, L)
          = Inr \<lparr>h_sample = sample_label, h_outcome = oc, h_lag = L,
                 chi2 = Some (round4 lib s), h_df = k, h_p = Some (fmt6g lib p),
                 decision = (if p < 5 / 100 then ''FE'' else ''RE'')\<rparr>)"
proof -
  have a: "hausman_stat lib fe_res re_res keep_idx
          = Inr (quad_form (diff_vec fe_res re_res keep_idx)
                           (used_inverse lib (diff_cov fe_res re_res keep_idx)),
                 length keep_idx,
                 1 - chi2_cdf lib (quad_form (diff_vec fe_res re_res keep_idx)
                                     (used_inverse lib (diff_cov fe_res re_res keep_idx)))
                                  (length keep_idx))"
    if sh: "shared fe_res re_res keep_idx"
      and len: "length (used_inverse lib (diff_cov fe_res re_res keep_idx)) = length keep_idx"
  proof -
    have "length (used_inverse lib (diff_cov fe_res re_res keep_idx))
          = length (diff_vec fe_res re_res keep_idx)"
      using len by (simp add: diff_vec_def)
    then show ?thesis
      by (simp add: hausman_stat_shared[OF sh] dot_vecmat_quad_form)
  qed
  have b: "linalg_inv lib V = Some W \<longrightarrow> used_inverse lib V = W"
    by (simp add: used_inverse_def)
  have c: "hausman_row lib fe_est re_est pnl sample_label (oc, L)
          = Inr \<lparr>h_sample = sample_label, h_outcome = oc, h_lag = L,
                 chi2 = None, h_df = 0, h_p = None, decision = ''NA''\<rparr>"
    if "length (d_y (build_design pnl (ycol oc) L)) = 0
        \<or> length (d_X (build_design pnl (ycol oc) L)) = 0"
    using that by (simp add: hausman_row_def Let_def del: length_0_conv)
  have d: "hausman_row lib fe_est re_est pnl sample_label (oc, L)
          = Inr \<lparr>h_sample = sample_label, h_outcome = oc, h_lag = L,
                 chi2 = Some (round4 lib s), h_df = k, h_p = Some (fmt6g lib p),
                 decision = (if p < 5 / 100 then ''FE'' else ''RE'')\<rparr>"
    if "length (d_y (build_design pnl (ycol oc) L)) \<noteq> 0"
      and "length (d_X (build_design pnl (ycol oc) L)) \<noteq> 0"
      and "fe_est (build_design pnl (ycol oc) L) = Inr fe"
      and "re_est (build_design pnl (ycol oc) L) = Inr re"
      and "hausman_stat lib fe re (map fst (d_X (build_design pnl (ycol oc) L))) = Inr (s, k, p)"
    using that by (simp add: hausman_row_def Let_def del: length_0_conv)
  from a b c d show ?thesis by blast
qed

theorem hausman_comparator_witness:
  "shared (fit_example 2 3) (fit_example 1 1) [''ESG_lag'']
   \<and> hausman_stat lib_example (fit_example 2 3) (fit_example 1 1) [''ESG_lag'']
       = Inr (1 / 2, 1, 2 / 3)
   \<and> linalg_inv lib_example [[2]] = Some [[1 / 2]]
   \<and> used_inverse lib_example [[2]] = [[1 / 2]]
   \<and> length (d_y (build_design [] (ycol ROA) 0)) = 0
   \<and> hausman_row lib_example (\<lambda>D. Inl (Exn ''unused'')) (\<lambda>D. Inl (Exn ''unused'')) []
        ''full'' (ROA, 0)
       = Inr \<lparr>h_sample = ''full'', h_outcome = ROA, h_lag = 0,
              chi2 = None, h_df = 0, h_p = None, decision = ''NA''\<rparr>
   \<and> hausman_row lib_example (\<lambda>D. Inr (fit_example 2 3)) (\<lambda>D. Inr (fit_example 1 1))
        hpanel_one ''full'' (ROA, 0)
       = Inr \<lparr>h_sample = ''full'', h_outcome = ROA, h_lag = 0,
              chi2 = Some (1 / 2), h_df = 1, h_p = Some (2 / 3), decision = ''RE''\<rparr>
   \<and> hausman_row lib_example (\<lambda>D. Inr (fit_example 11 3)) (\<lambda>D. Inr (fit_example 1 1))
        hpanel_one ''full'' (ROA, 0)
       = Inr \<lparr>h_sample = ''full'', h_outcome = ROA, h_lag = 0,
              chi2 = Some 50, h_df = 1, h_p = Some (1 / 51), decision = ''FE''\<rparr>"
proof -
  let ?fe = "fit_example 2 3" and ?re = "fit_example 1 1"
  let ?raise = "\<lambda>D::design. (Inl (Exn ''unused'') :: exn + hfit)"
  note T1 = hausman_comparator
    [of ?fe ?re "[''ESG_lag'']" lib_example "[[2]]" "[[1 / 2]]" "[]" ROA 0 ?raise ?raise
        "''full''" ?fe ?re "1 / 2" 1 "2 / 3"]
  note T2 = hausman_comparator
    [of ?fe ?re "[''ESG_lag'']" lib_example "[[2]]" "[[1 / 2]]" hpanel_one ROA 0
        "\<lambda>D. Inr ?fe" "\<lambda>D. Inr ?re" "''full''" ?fe ?re "1 / 2" 1 "2 / 3"]
  have sh: "shared ?fe ?re [''ESG_lag'']" by (rule shared_example)
  have len: "length (used_inverse lib_example (diff_cov ?fe ?re [''ESG_lag''])) = length [''ESG_lag'']"
    by (simp add: diff_example used_inverse_example)
  have inv: "linalg_inv lib_example [[2]] = Some [[1 / 2]]"
    by (simp add: lib_example_def inv_1x1_def)
  from T1 inv have ui: "used_inverse lib_example [[2]] = [[1 / 2]]" by blast
  from T1 sh len have "hausman_stat lib_example ?fe ?re [''ESG_lag'']
          = Inr (quad_form (diff_vec ?fe ?re [''ESG_lag''])
                           (used_inverse lib_example (diff_cov ?fe ?re [''ESG_lag''])),
                 length [''ESG_lag''],
                 1 - chi2_cdf lib_example (quad_form (diff_vec ?fe ?re [''ESG_lag''])
                                     (used_inverse lib_example (diff_cov ?fe ?re [''ESG_lag''])))
                                  (length [''ESG_lag'']))"
    by blast
  then have st: "hausman_stat lib_example ?fe ?re [''ESG_lag''] = Inr (1 / 2, 1, 2 / 3)"
    by (simp add: diff_example used_inverse_example quad_form_1x1 lib_example_simps)
  have e0: "length (d_y (build_design [] (ycol ROA) 0)) = 0"
    by (simp add: build_design_def groupby_shift_def)
  from T1 e0 have na: "hausman_row lib_example ?raise ?raise [] ''full'' (ROA, 0)
       = Inr \<lparr>h_sample = ''full'', h_outcome = ROA, h_lag = 0,
              chi2 = None, h_df = 0, h_p = None, decision = ''NA''\<rparr>"
    by blast
  have ny: "length (d_y (build_design hpanel_one (ycol ROA) 0)) \<noteq> 0"
    and nx: "length (d_X (build_design hpanel_one (ycol ROA) 0)) \<noteq> 0"
    and keep: "map fst (d_X (build_design hpanel_one (ycol ROA) 0)) = [''ESG_lag'']"
    by (simp_all add: design_one)
  from T2 ny nx st keep have "hausman_row lib_example (\<lambda>D. Inr ?fe) (\<lambda>D. Inr ?re)
        hpanel_one ''full'' (ROA, 0)
       = Inr \<lparr>h_sample = ''full'', h_outcome = ROA, h_lag = 0,
              chi2 = Some (round4 lib_example (1 / 2)), h_df = 1,
              h_p = Some (fmt6g lib_example (2 / 3)),
              decision = (if (2 / 3 :: real) < 5 / 100 then ''FE'' else ''RE'')\<rparr>"
    by simp
  then have row: "hausman_row lib_example (\<lambda>D. Inr ?fe) (\<lambda>D. Inr ?re)
        hpanel_one ''full'' (ROA, 0)
       = Inr \<lparr>h_sample = ''full'', h_outcome = ROA, h_lag = 0,
              chi2 = Some (1 / 2), h_df = 1, h_p = Some (2 / 3), decision = ''RE''\<rparr>"
    by (simp add: lib_example_simps)
  note T3 = hausman_comparator
    [of "fit_example 11 3" ?re "[''ESG_lag'']" lib_example "[[2]]" "[[1 / 2]]" hpanel_one ROA 0
        "\<lambda>D. Inr (fit_example 11 3)" "\<lambda>D. Inr ?re" "''full''" "fit_example 11 3" ?re
        50 1 "1 / 51"]
  have "length (used_inverse lib_example (diff_cov (fit_example 11 3) ?re [''ESG_lag'']))
          = length [''ESG_lag'']"
    by (simp add: diff_example used_inverse_example)
  with T3 shared_example[of 11 3 1 1]
  have "hausman_stat lib_example (fit_example 11 3) ?re [''ESG_lag'']
          = Inr (quad_form (diff_vec (fit_example 11 3) ?re [''ESG_lag''])
                   (used_inverse lib_example (diff_cov (fit_example 11 3) ?re [''ESG_lag''])),
                 length [''ESG_lag''],
                 1 - chi2_cdf lib_example
                       (quad_form (diff_vec (fit_example 11 3) ?re [''ESG_lag''])
                          (used_inverse lib_example
                             (diff_cov (fit_example 11 3) ?re [''ESG_lag''])))
                       (length [''ESG_lag'']))"
    by blast
  then have st3: "hausman_stat lib_example (fit_example 11 3) ?re [''ESG_lag'']
                  = Inr (50, 1, 1 / 51)"
    by (simp add: diff_example used_inverse_example quad_form_1x1 lib_example_simps)
  from T3 ny nx st3 keep have "hausman_row lib_example (\<lambda>D. Inr (fit_example 11 3))
        (\<lambda>D. Inr ?re) hpanel_one ''full'' (ROA, 0)
       = Inr \<lparr>h_sample = ''full'', h_outcome = ROA, h_lag = 0,
              chi2 = Some (round4 lib_example 50), h_df = 1,
              h_p = Some (fmt6g lib_example (1 / 51)),
              decision = (if (1 / 51 :: real) < 5 / 100 then ''FE'' else ''RE'')\<rparr>"
    by simp
  then have row3: "hausman_row lib_example (\<lambda>D. Inr (fit_example 11 3))
        (\<lambda>D. Inr ?re) hpanel_one ''full'' (ROA, 0)
       = Inr \<lparr>h_sample = ''full'', h_outcome = ROA, h_lag = 0,
              chi2 = Some 50, h_df = 1, h_p = Some (1 / 51), decision = ''FE''\<rparr>"
    by (simp add: lib_example_simps)
  from sh st inv ui e0 na row row3 show ?thesis by blast
qed

text \<open>
  Claim C7, as stated, fails. With the coefficient variances 1 (FE) and 2 (RE) the
  difference \<open>V = -1\<close> is invertible and the statistic is \<open>-1\<close>. With equal variances \<open>V\<close>
  is singular, the inversion raises and the pseudo-inverse is used; the triple returned
  is the one a run without the fallback returns (third pair of fits), and neither it nor
  the row of the appendix has a field that could tell the two apart.
\<close>

theorem hausman_nonnegative_flag_counterexample:
  "linalg_inv lib_example (diff_cov (fit_example 2 1) (fit_example 1 2) [''ESG_lag''])
       = Some [[- 1]]
   \<and> hausman_stat lib_example (fit_example 2 1) (fit_example 1 2) [''ESG_lag'']
       = Inr (- 1, 1, 1)
   \<and> linalg_inv lib_example (diff_cov (fit_example 2 1) (fit_example 1 1) [''ESG_lag'']) = None
   \<and> hausman_stat lib_example (fit_example 2 1) (fit_example 1 1) [''ESG_lag'']
       = Inr (0, 1, 1)
   \<and> linalg_inv lib_example (diff_cov (fit_example 1 2) (fit_example 1 1) [''ESG_lag''])
       = Some [[1]]
   \<and> hausman_stat lib_example (fit_example 1 2) (fit_example 1 1) [''ESG_lag'']
       = Inr (0, 1, 1)"
  by (simp add: hausman_stat_def params_at_def cov_loc_def fit_example_def lib_example_def
      inv_1x1_def pinv_1x1_def vecmat_def dot_def diff_cov_def Let_def)

text \<open>
  Claim C7, amended. The result of the comparison depends on the matrix the statistic is
  computed with, not on the routine that produced it: a comparison in which the
  pseudo-inverse is used returns what it would return had the inversion succeeded with
  that matrix, for the triple of \<open>hausman_stat\<close> and for the row of the appendix alike.
  The statistic is non-negative whenever that matrix is positive semidefinite.
\<close>

theorem hausman_fallback_amended:
  "hausman_stat lib fe_res re_res keep_idx
     = hausman_stat (lib\<lparr>linalg_inv := \<lambda>V. Some (used_inverse lib V)\<rparr>) fe_res re_res keep_idx
   \<and> hausman_row lib fe_est re_est pnl sample_label ol
     = hausman_row (lib\<lparr>linalg_inv := \<lambda>V. Some (used_inverse lib V)\<rparr>)
         fe_est re_est pnl sample_label ol
   \<and> (shared fe_res re_res keep_idx
      \<longrightarrow> length (used_inverse lib (diff_cov fe_res re_res keep_idx)) = length keep_idx
      \<longrightarrow> (\<forall>x. length x = length keep_idx
               \<longrightarrow> 0 \<le> quad_form x (used_inverse lib (diff_cov fe_res re_res keep_idx)))
      \<longrightarrow> (\<exists>s p. hausman_stat lib fe_res re_res keep_idx = Inr (s, length keep_idx, p) \<and> 0 \<le> s))"
proof -
  let ?lib = "lib\<lparr>linalg_inv := \<lambda>V. Some (used_inverse lib V)\<rparr>"
  have a: "hausman_stat lib fe re keep = hausman_stat ?lib fe re keep" for fe re keep
    by (simp add: hausman_stat_def used_inverse_def Let_def
        split: option.splits prod.splits)
  have b: "hausman_row lib fe_est re_est pnl sample_label ol
     = hausman_row ?lib fe_est re_est pnl sample_label ol"
    by (simp add: hausman_row_def Let_def a[symmetric] split: prod.splits sum.splits)
  have c: "\<exists>s p. hausman_stat lib fe_res re_res keep_idx = Inr (s, length keep_idx, p) \<and> 0 \<le> s"
    if sh: "shared fe_res re_res keep_idx"
      and len: "length (used_inverse lib (diff_cov fe_res re_res keep_idx)) = length keep_idx"
      and psd: "\<forall>x. length x = length keep_idx
               \<longrightarrow> 0 \<le> quad_form x (used_inverse lib (diff_cov fe_res re_res keep_idx))"
  proof -
    have l: "length (used_inverse lib (diff_cov fe_res re_res keep_idx))
          = length (diff_vec fe_res re_res keep_idx)"
      using len by (simp add: diff_vec_def)
    have "0 \<le> quad_form (diff_vec fe_res re_res keep_idx)
                 (used_inverse lib (diff_cov fe_res re_res keep_idx))"
      using psd by (simp add: diff_vec_def)
    then show ?thesis
      by (simp add: hausman_stat_shared[OF sh] dot_vecmat_quad_form[OF l])
  qed
  from a[of fe_res re_res keep_idx] b c show ?thesis by blast
qed

theorem hausman_fallback_amended_witness:
  "shared (fit_example 2 3) (fit_example 1 1) [''ESG_lag'']
   \<and> used_inverse lib_example (diff_cov (fit_example 2 3) (fit_example 1 1) [''ESG_lag''])
       = [[1 / 2]]
   \<and> hausman_stat lib_example (fit_example 2 3) (fit_example 1 1) [''ESG_lag'']
       = Inr (1 / 2, 1, 2 / 3)
   \<and> hausman_stat (lib_example\<lparr>linalg_inv := \<lambda>V. Some (used_inverse lib_example V)\<rparr>)
        (fit_example 2 1) (fit_example 1 1) [''ESG_lag'']
       = Inr (0, 1, 1)"
proof -
  let ?fe = "fit_example 2 3" and ?re = "fit_example 1 1"
  note T = hausman_fallback_amended
    [of lib_example ?fe ?re "[''ESG_lag'']" "\<lambda>D. Inr ?fe" "\<lambda>D. Inr ?re" "[]" "''full''" "(ROA, 0)"]
  note U = hausman_fallback_amended
    [of lib_example "fit_example 2 1" ?re "[''ESG_lag'']" "\<lambda>D. Inr ?fe" "\<lambda>D. Inr ?re" "[]"
        "''full''" "(ROA, 0)"]
  have sh: "shared ?fe ?re [''ESG_lag'']" by (rule shared_example)
  have W: "used_inverse lib_example (diff_cov ?fe ?re [''ESG_lag'']) = [[1 / 2]]"
    by (simp add: diff_example used_inverse_example)
  have len: "length (used_inverse lib_example (diff_cov ?fe ?re [''ESG_lag''])) = length [''ESG_lag'']"
    by (simp add: W)
  have psd: "\<forall>x. length x = length [''ESG_lag'']
               \<longrightarrow> 0 \<le> quad_form x (used_inverse lib_example (diff_cov ?fe ?re [''ESG_lag'']))"
  proof (intro allI impI)
    fix x :: "real list" assume "length x = length [''ESG_lag'']"
    then obtain a where "x = [a]" by (cases x) auto
    then show "0 \<le> quad_form x (used_inverse lib_example (diff_cov ?fe ?re [''ESG_lag'']))"
      by (simp add: W quad_form_1x1)
  qed
  from T sh len psd obtain s p where
    sp: "hausman_stat lib_example ?fe ?re [''ESG_lag''] = Inr (s, length [''ESG_lag''], p)" "0 \<le> s"
    by blast
  have st: "hausman_stat lib_example ?fe ?re [''ESG_lag''] = Inr (1 / 2, 1, 2 / 3)"
    using sp
    by (simp add: hausman_stat_def params_at_def cov_loc_def fit_example_def lib_example_def
        inv_1x1_def vecmat_def dot_def Let_def)
  have "hausman_stat lib_example (fit_example 2 1) ?re [''ESG_lag''] = Inr (0, 1, 1)"
    by (simp add: hausman_stat_def params_at_def cov_loc_def fit_example_def lib_example_def
        inv_1x1_def pinv_1x1_def vecmat_def dot_def Let_def)
  with U have fb: "hausman_stat (lib_example\<lparr>linalg_inv := \<lambda>V. Some (used_inverse lib_example V)\<rparr>)
        (fit_example 2 1) ?re [''ESG_lag''] = Inr (0, 1, 1)"
    by simp
  from sh W st fb show ?thesis by blast
qed

section \<open>Cross-sectional dependence\<close>















end
